theory Spec2Isabelle
  imports Main "HOL-Library.Word"
begin

section \<open>The device-mapper sysfs attributes (drivers/md/dm-sysfs.c)\<close>

text \<open>
  The file exports the attributes of a mapped device through sysfs: two generic
  dispatchers (\<open>dm_attr_show\<close>, \<open>dm_attr_store\<close>) that resolve the kobject to its
  mapped device, call the attribute's callback and drop the reference again, and seven
  attributes, four of which read or reset the three I/O latency histograms.

  The embedding follows the C text. A function that writes through a pointer returns the
  new value of what it wrote (the page, the mapped device, the registry). A function
  whose C execution would leave the object it was given (a store past the end of the
  page, a read past the end of an array, \<open>strlen\<close> on a buffer without terminator)
  returns \<open>None\<close>: C gives such an execution no meaning.
\<close>

subsection \<open>C types and constants\<close>

type_synonym c_int = "32 word" \<comment> \<open>\<open>int\<close> and \<open>atomic_t\<close>; read with \<open>sint\<close>\<close>
type_synonym size_t = "64 word" \<comment> \<open>read with \<open>unat\<close>\<close>
type_synonym ssize_t = "64 word" \<comment> \<open>read with \<open>sint\<close>; negative values are errors\<close>
type_synonym page = "char list" \<comment> \<open>the bytes of the buffer a callback may write\<close>

text \<open>The error numbers of errno-base.h that the file uses, and \<open>ENOENT\<close>.\<close>

definition ENOENT :: ssize_t where "ENOENT = 2"
definition EIO :: ssize_t where "EIO = 5"
definition ENXIO :: ssize_t where "ENXIO = 6"
definition EINVAL :: ssize_t where "EINVAL = 22"

text \<open>The permission bits of linux/stat.h: \<open>S_IRUGO\<close> is octal 0444, \<open>S_IWUSR\<close> octal 0200.\<close>

definition S_IRUGO :: nat where "S_IRUGO = 292"
definition S_IWUSR :: nat where "S_IWUSR = 128"

text \<open>
  The bucket counts and grain sizes are macros of dm.h, which is not part of the sources
  at hand: they are parameters here. A bucket count is the dimension of the array of
  counters and the bound of the \<open>int\<close> loop index, a grain size is an \<open>int\<close> added to
  the \<open>int\<close> variable \<open>slot_base\<close>.
\<close>

record dm_latency_config =
  DM_LATENCY_STATS_US_NR :: nat
  DM_LATENCY_STATS_US_GRAINSIZE :: c_int
  DM_LATENCY_STATS_MS_NR :: nat
  DM_LATENCY_STATS_MS_GRAINSIZE :: c_int
  DM_LATENCY_STATS_S_NR :: nat
  DM_LATENCY_STATS_S_GRAINSIZE :: c_int

subsection \<open>The mapped device\<close>

text \<open>
  Of \<open>struct mapped_device\<close> (declared in dm.c and dm.h) the file touches the three
  arrays of \<open>atomic_t\<close> counters directly; name, uuid and the suspended flag are reached
  through \<open>dm_copy_name_and_uuid\<close> and \<open>dm_suspended_md\<close>.
\<close>

record mapped_device =
  hash_cell :: "(string \<times> string) option" \<comment> \<open>name and uuid, when the device has them\<close>
  suspended :: bool
  latency_stats_us :: "c_int list"
  latency_stats_ms :: "c_int list"
  latency_stats_s :: "c_int list"

subsection \<open>Strings in a page\<close>

definition NUL :: char where
  "NUL = CHR 0x00"

text \<open>\<open>strlen\<close>: the offset of the first terminator; none in the buffer is a read past its end.\<close>

definition strlen :: "page \<Rightarrow> nat option" where
  "strlen buf =
     (if NUL \<in> set buf then Some (length (takeWhile (\<lambda>c. c \<noteq> NUL) buf)) else None)"

text \<open>
  Storing the characters of \<open>s\<close> and the terminator at offset \<open>ptr\<close> of the buffer,
  which is what \<open>strcpy (buf + ptr, s)\<close> does and what \<open>sprintf (buf + ptr, ...)\<close> does
  with the formatted text. Nothing in the C checks that the text fits.
\<close>

definition store_str :: "page \<Rightarrow> nat \<Rightarrow> string \<Rightarrow> page option" where
  "store_str buf ptr s =
     (if ptr + length s < length buf
      then Some (take ptr buf @ s @ NUL # drop (ptr + length s + 1) buf)
      else None)"

text \<open>\<open>sprintf\<close> returns the number of characters stored, the terminator not counted.\<close>

definition sprintf :: "page \<Rightarrow> nat \<Rightarrow> string \<Rightarrow> (page \<times> int) option" where
  "sprintf buf ptr s = map_option (\<lambda>buf'. (buf', int (length s))) (store_str buf ptr s)"

definition strcat :: "page \<Rightarrow> string \<Rightarrow> page option" where
  "strcat buf s = (case strlen buf of None \<Rightarrow> None | Some n \<Rightarrow> store_str buf n s)"

subsection \<open>The conversion \<open>%d\<close>\<close>

definition digit_char :: "nat \<Rightarrow> char" where
  "digit_char d = ''0123456789'' ! d"

fun dec :: "nat \<Rightarrow> string" where
  "dec n = (if n < 10 then [digit_char n] else dec (n div 10) @ [digit_char (n mod 10)])"

declare dec.simps [simp del]

definition dec_int :: "int \<Rightarrow> string" where
  "dec_int v = (if v < 0 then CHR ''-'' # dec (nat (- v)) else dec (nat v))"

text \<open>\<open>%d\<close> takes an \<open>int\<close>: the 32 bits of the argument read as two's complement.\<close>

definition fmt_d :: "c_int \<Rightarrow> string" where
  "fmt_d x = dec_int (sint x)"

text \<open>The format \<open>"%d-%d(us):%d\n"\<close>, and the same with \<open>ms\<close> and \<open>s\<close> for \<open>us\<close>.\<close>

definition fmt_latency :: "string \<Rightarrow> c_int \<Rightarrow> c_int \<Rightarrow> c_int \<Rightarrow> string" where
  "fmt_latency unit lo hi cnt =
     fmt_d lo @ ''-'' @ fmt_d hi @ ''('' @ unit @ ''):'' @ fmt_d cnt @ ''\<newline>''"

subsection \<open>Collaborators outside the file\<close>

text \<open>
  Modelled from the spec: \<open>dm_suspended_md\<close> is defined in dm.c; the spec gives the
  collaborator as \<open>is_suspended() -> bool\<close>, which as a C \<open>int\<close> is 1 or 0.
\<close>

definition dm_suspended_md :: "mapped_device \<Rightarrow> c_int" where
  "dm_suspended_md md = (if suspended md then 1 else 0)"

text \<open>
  Modelled from the spec: a copy of a string into a destination that may be the null
  pointer (\<open>None\<close>), which is then left alone, as \<open>dm_copy_name_and_uuid\<close> treats its
  two destinations.
\<close>

definition strcpy_to :: "page option \<Rightarrow> string \<Rightarrow> page option option" where
  "strcpy_to dst s =
     (case dst of None \<Rightarrow> Some None | Some buf \<Rightarrow> map_option Some (store_str buf 0 s))"

text \<open>
  Modelled from the spec: \<open>dm_copy_name_and_uuid\<close> is defined in dm-ioctl.c; the spec
  gives \<open>get_name() -> string | fails\<close> and \<open>get_uuid() -> string | fails\<close>. The result
  is 0 after the copies, and not 0, with nothing copied, when the device has no name to
  give.
\<close>

definition dm_copy_name_and_uuid ::
  "mapped_device \<Rightarrow> page option \<Rightarrow> page option \<Rightarrow> (ssize_t \<times> page option \<times> page option) option"
where
  "dm_copy_name_and_uuid md name uuid =
     (case hash_cell md of
        None \<Rightarrow> Some (- ENXIO, name, uuid)
      | Some (n, u) \<Rightarrow>
          (case strcpy_to name n of
             None \<Rightarrow> None
           | Some name' \<Rightarrow>
               (case strcpy_to uuid u of
                  None \<Rightarrow> None
                | Some uuid' \<Rightarrow> Some (0, name', uuid'))))"

text \<open>
  The object registry of the spec. It maps the kobjects of the devices that can still be
  resolved to their devices and counts the references held on each; \<open>ref_log\<close> records
  every acquisition and release in order.
\<close>

type_synonym kobject = nat

datatype ref_event = Acquire kobject | Release kobject

record dm_registry =
  live :: "kobject \<rightharpoonup> mapped_device"
  holders :: "kobject \<Rightarrow> int"
  ref_log :: "ref_event list"

text \<open>
  Modelled from the spec: \<open>dm_get_from_kobject\<close> is defined in dm.c; the spec gives
  \<open>resolve(handle) -> reference | InvalidHandle\<close>, which acquires a reference when it
  succeeds. The result is the device behind the kobject, or the null pointer (\<open>None\<close>).
\<close>

definition dm_get_from_kobject ::
  "dm_registry \<Rightarrow> kobject \<Rightarrow> mapped_device option \<times> dm_registry"
where
  "dm_get_from_kobject reg kobj =
     (case live reg kobj of
        None \<Rightarrow> (None, reg)
      | Some md \<Rightarrow>
          (Some md,
           reg\<lparr>holders := (holders reg)(kobj := holders reg kobj + 1),
               ref_log := ref_log reg @ [Acquire kobj]\<rparr>))"

text \<open>
  Modelled from the spec: \<open>dm_put\<close> is defined in dm.c; the spec gives
  \<open>release(reference)\<close>.
\<close>

definition dm_put :: "dm_registry \<Rightarrow> kobject \<Rightarrow> dm_registry" where
  "dm_put reg kobj =
     reg\<lparr>holders := (holders reg)(kobj := holders reg kobj - 1),
         ref_log := ref_log reg @ [Release kobj]\<rparr>"

text \<open>
  Modelled from the spec: the counters are incremented by an observer outside the file
  (the completion of an I/O, in dm.c), bucket by bucket. On an \<open>atomic_t\<close> adding \<open>k\<close>, at
  once or one by one, adds \<open>k\<close> modulo \<open>2 ^ 32\<close>.
\<close>

definition atomic_add :: "nat \<Rightarrow> c_int \<Rightarrow> c_int" where
  "atomic_add k v = v + of_nat k"

subsection \<open>Attribute descriptors\<close>

record attribute =
  attr_name :: string
  attr_mode :: nat

type_synonym show_fn = "mapped_device \<Rightarrow> page \<Rightarrow> (ssize_t \<times> page \<times> mapped_device) option"
type_synonym store_fn =
  "mapped_device \<Rightarrow> string \<Rightarrow> size_t \<Rightarrow> (ssize_t \<times> mapped_device) option"

text \<open>
  \<open>struct dm_sysfs_attr\<close>. A callback receives the pointer to the mapped device and, for
  \<open>show\<close>, the pointer to the page, and may write through both; \<open>store\<close> receives the
  payload as pointer to constant characters and its length. A null callback is \<open>None\<close>.
\<close>

record dm_sysfs_attr =
  attr :: attribute
  dm_show :: "show_fn option"
  dm_store :: "store_fn option"

text \<open>
  The macros: \<open>DM_ATTR_RO\<close> sets \<open>show\<close> and leaves \<open>store\<close> null; \<open>DM_ATTR_RW\<close>, as the
  file defines it, sets \<open>store\<close> and leaves \<open>show\<close> null.
\<close>

definition DM_ATTR_RO :: "string \<Rightarrow> show_fn \<Rightarrow> dm_sysfs_attr" where
  "DM_ATTR_RO nm f =
     \<lparr>attr = \<lparr>attr_name = nm, attr_mode = S_IRUGO\<rparr>, dm_show = Some f, dm_store = None\<rparr>"

definition DM_ATTR_RW :: "string \<Rightarrow> store_fn \<Rightarrow> dm_sysfs_attr" where
  "DM_ATTR_RW nm g =
     \<lparr>attr = \<lparr>attr_name = nm, attr_mode = S_IRUGO + S_IWUSR\<rparr>,
      dm_show = None, dm_store = Some g\<rparr>"

subsection \<open>The dispatchers\<close>

definition dm_attr_show ::
  "dm_registry \<Rightarrow> kobject \<Rightarrow> dm_sysfs_attr \<Rightarrow> page \<Rightarrow> (ssize_t \<times> page \<times> dm_registry) option"
where
  "dm_attr_show reg kobj dm_attr page =
     (case dm_show dm_attr of
        None \<Rightarrow> Some (- EIO, page, reg)
      | Some f \<Rightarrow>
          (case dm_get_from_kobject reg kobj of
             (None, reg1) \<Rightarrow> Some (- EINVAL, page, reg1)
           | (Some md, reg1) \<Rightarrow>
               (case f md page of
                  None \<Rightarrow> None
                | Some (ret, page', md') \<Rightarrow>
                    Some (ret, page', dm_put (reg1\<lparr>live := (live reg1)(kobj \<mapsto> md')\<rparr>) kobj))))"

definition dm_attr_store ::
  "dm_registry \<Rightarrow> kobject \<Rightarrow> dm_sysfs_attr \<Rightarrow> string \<Rightarrow> size_t \<Rightarrow> (ssize_t \<times> dm_registry) option"
where
  "dm_attr_store reg kobj dm_attr page len =
     (case dm_store dm_attr of
        None \<Rightarrow> Some (- EIO, reg)
      | Some g \<Rightarrow>
          (case dm_get_from_kobject reg kobj of
             (None, reg1) \<Rightarrow> Some (- EINVAL, reg1)
           | (Some md, reg1) \<Rightarrow>
               (case g md page len of
                  None \<Rightarrow> None
                | Some (ret, md') \<Rightarrow>
                    Some (ret, dm_put (reg1\<lparr>live := (live reg1)(kobj \<mapsto> md')\<rparr>) kobj))))"

subsection \<open>The callbacks\<close>

definition dm_attr_name_show :: show_fn where
  "dm_attr_name_show md buf =
     (case dm_copy_name_and_uuid md (Some buf) None of
        None \<Rightarrow> None
      | Some (rc, name, uuid) \<Rightarrow>
          if rc \<noteq> 0 then Some (- EIO, buf, md)
          else (case name of
                  None \<Rightarrow> None
                | Some buf1 \<Rightarrow>
                    (case strcat buf1 ''\<newline>'' of
                       None \<Rightarrow> None
                     | Some buf2 \<Rightarrow>
                         (case strlen buf2 of
                            None \<Rightarrow> None
                          | Some n \<Rightarrow> Some (of_nat n, buf2, md)))))"

definition dm_attr_uuid_show :: show_fn where
  "dm_attr_uuid_show md buf =
     (case dm_copy_name_and_uuid md None (Some buf) of
        None \<Rightarrow> None
      | Some (rc, name, uuid) \<Rightarrow>
          if rc \<noteq> 0 then Some (- EIO, buf, md)
          else (case uuid of
                  None \<Rightarrow> None
                | Some buf1 \<Rightarrow>
                    (case strcat buf1 ''\<newline>'' of
                       None \<Rightarrow> None
                     | Some buf2 \<Rightarrow>
                         (case strlen buf2 of
                            None \<Rightarrow> None
                          | Some n \<Rightarrow> Some (of_nat n, buf2, md)))))"

definition dm_attr_suspended_show :: show_fn where
  "dm_attr_suspended_show md buf =
     (case sprintf buf 0 (fmt_d (dm_suspended_md md) @ ''\<newline>'') of
        None \<Rightarrow> None
      | Some (buf1, nr) \<Rightarrow>
          (case strlen buf1 of
             None \<Rightarrow> None
           | Some n \<Rightarrow> Some (of_nat n, buf1, md)))"

text \<open>
  The three latency callbacks are one loop written three times, with the unit in the
  format, the bucket count, the grain size and the array changed. The loop is
  \<open>io_latency_loop\<close>, with the C variables \<open>buf\<close>, \<open>ptr\<close>, \<open>slot_base\<close> and \<open>i\<close> as
  arguments; \<open>nr\<close> is the result of \<open>sprintf\<close>, and a negative one leaves the loop.
\<close>

definition atomic_read_at :: "c_int list \<Rightarrow> nat \<Rightarrow> c_int option" where
  "atomic_read_at stats i = (if i < length stats then Some (stats ! i) else None)"

function io_latency_loop ::
  "string \<Rightarrow> nat \<Rightarrow> c_int \<Rightarrow> c_int list \<Rightarrow> page \<Rightarrow> nat \<Rightarrow> c_int \<Rightarrow> nat \<Rightarrow> page option"
where
  "io_latency_loop unit NR GRAINSIZE stats buf ptr slot_base i =
     (if i < NR then
        (case atomic_read_at stats i of
           None \<Rightarrow> None
         | Some cnt \<Rightarrow>
             (case sprintf buf ptr
                     (fmt_latency unit slot_base (slot_base + GRAINSIZE - 1) cnt) of
                None \<Rightarrow> None
              | Some (buf', nr) \<Rightarrow>
                  if nr < 0 then Some buf'
                  else io_latency_loop unit NR GRAINSIZE stats buf'
                         (ptr + nat nr) (slot_base + GRAINSIZE) (i + 1)))
      else Some buf)"
  by pat_completeness auto
termination
  by (relation "measure (\<lambda>(unit, NR, GRAINSIZE, stats, buf, ptr, slot_base, i). NR - i)") auto

declare io_latency_loop.simps [simp del]

definition io_latency_show :: "string \<Rightarrow> nat \<Rightarrow> c_int \<Rightarrow> c_int list \<Rightarrow> page \<Rightarrow> (ssize_t \<times> page) option"
where
  "io_latency_show unit NR GRAINSIZE stats buf =
     (case io_latency_loop unit NR GRAINSIZE stats buf 0 0 0 of
        None \<Rightarrow> None
      | Some buf' \<Rightarrow>
          (case strlen buf' of
             None \<Rightarrow> None
           | Some n \<Rightarrow> Some (of_nat n, buf')))"

definition dm_attr_io_latency_us_show :: "dm_latency_config \<Rightarrow> show_fn" where
  "dm_attr_io_latency_us_show cfg md buf =
     map_option (\<lambda>(ret, buf'). (ret, buf', md))
       (io_latency_show ''us'' (DM_LATENCY_STATS_US_NR cfg)
          (DM_LATENCY_STATS_US_GRAINSIZE cfg) (latency_stats_us md) buf)"

definition dm_attr_io_latency_ms_show :: "dm_latency_config \<Rightarrow> show_fn" where
  "dm_attr_io_latency_ms_show cfg md buf =
     map_option (\<lambda>(ret, buf'). (ret, buf', md))
       (io_latency_show ''ms'' (DM_LATENCY_STATS_MS_NR cfg)
          (DM_LATENCY_STATS_MS_GRAINSIZE cfg) (latency_stats_ms md) buf)"

definition dm_attr_io_latency_s_show :: "dm_latency_config \<Rightarrow> show_fn" where
  "dm_attr_io_latency_s_show cfg md buf =
     map_option (\<lambda>(ret, buf'). (ret, buf', md))
       (io_latency_show ''s'' (DM_LATENCY_STATS_S_NR cfg)
          (DM_LATENCY_STATS_S_GRAINSIZE cfg) (latency_stats_s md) buf)"

text \<open>
  The reset: three loops of \<open>atomic_set (&a[i], 0)\<close>, then \<open>return len\<close>. The payload is
  not read.
\<close>

function atomic_set_loop :: "nat \<Rightarrow> c_int list \<Rightarrow> nat \<Rightarrow> c_int list option" where
  "atomic_set_loop NR stats i =
     (if i < NR then
        (if i < length stats then atomic_set_loop NR (stats[i := 0]) (i + 1) else None)
      else Some stats)"
  by pat_completeness auto
termination
  by (relation "measure (\<lambda>(NR, stats, i). NR - i)") auto

declare atomic_set_loop.simps [simp del]

definition dm_attr_io_latency_reset_store :: "dm_latency_config \<Rightarrow> store_fn" where
  "dm_attr_io_latency_reset_store cfg md buf len =
     (case atomic_set_loop (DM_LATENCY_STATS_US_NR cfg) (latency_stats_us md) 0 of
        None \<Rightarrow> None
      | Some us \<Rightarrow>
          (case atomic_set_loop (DM_LATENCY_STATS_MS_NR cfg) (latency_stats_ms md) 0 of
             None \<Rightarrow> None
           | Some ms \<Rightarrow>
               (case atomic_set_loop (DM_LATENCY_STATS_S_NR cfg) (latency_stats_s md) 0 of
                  None \<Rightarrow> None
                | Some s \<Rightarrow>
                    Some (len, md\<lparr>latency_stats_us := us, latency_stats_ms := ms,
                                  latency_stats_s := s\<rparr>))))"

subsection \<open>The attribute table\<close>

definition dm_attr_name :: dm_sysfs_attr where
  "dm_attr_name = DM_ATTR_RO ''name'' dm_attr_name_show"

definition dm_attr_uuid :: dm_sysfs_attr where
  "dm_attr_uuid = DM_ATTR_RO ''uuid'' dm_attr_uuid_show"

definition dm_attr_suspended :: dm_sysfs_attr where
  "dm_attr_suspended = DM_ATTR_RO ''suspended'' dm_attr_suspended_show"

definition dm_attr_io_latency_us :: "dm_latency_config \<Rightarrow> dm_sysfs_attr" where
  "dm_attr_io_latency_us cfg = DM_ATTR_RO ''io_latency_us'' (dm_attr_io_latency_us_show cfg)"

definition dm_attr_io_latency_ms :: "dm_latency_config \<Rightarrow> dm_sysfs_attr" where
  "dm_attr_io_latency_ms cfg = DM_ATTR_RO ''io_latency_ms'' (dm_attr_io_latency_ms_show cfg)"

definition dm_attr_io_latency_s :: "dm_latency_config \<Rightarrow> dm_sysfs_attr" where
  "dm_attr_io_latency_s cfg = DM_ATTR_RO ''io_latency_s'' (dm_attr_io_latency_s_show cfg)"

definition dm_attr_io_latency_reset :: "dm_latency_config \<Rightarrow> dm_sysfs_attr" where
  "dm_attr_io_latency_reset cfg =
     DM_ATTR_RW ''io_latency_reset'' (dm_attr_io_latency_reset_store cfg)"

definition dm_attrs :: "dm_latency_config \<Rightarrow> dm_sysfs_attr list" where
  "dm_attrs cfg =
     [dm_attr_name, dm_attr_uuid, dm_attr_suspended, dm_attr_io_latency_us cfg,
      dm_attr_io_latency_ms cfg, dm_attr_io_latency_s cfg, dm_attr_io_latency_reset cfg]"

section \<open>Properties\<close>

subsection \<open>Vocabulary\<close>

text \<open>The three time scales, and what each of them selects in the code.\<close>

datatype scale = Micro | Milli | Second

fun scale_unit :: "scale \<Rightarrow> string" where
  "scale_unit Micro = ''us''"
| "scale_unit Milli = ''ms''"
| "scale_unit Second = ''s''"

fun scale_nr :: "dm_latency_config \<Rightarrow> scale \<Rightarrow> nat" where
  "scale_nr cfg Micro = DM_LATENCY_STATS_US_NR cfg"
| "scale_nr cfg Milli = DM_LATENCY_STATS_MS_NR cfg"
| "scale_nr cfg Second = DM_LATENCY_STATS_S_NR cfg"

fun scale_grainsize :: "dm_latency_config \<Rightarrow> scale \<Rightarrow> c_int" where
  "scale_grainsize cfg Micro = DM_LATENCY_STATS_US_GRAINSIZE cfg"
| "scale_grainsize cfg Milli = DM_LATENCY_STATS_MS_GRAINSIZE cfg"
| "scale_grainsize cfg Second = DM_LATENCY_STATS_S_GRAINSIZE cfg"

fun scale_stats :: "mapped_device \<Rightarrow> scale \<Rightarrow> c_int list" where
  "scale_stats md Micro = latency_stats_us md"
| "scale_stats md Milli = latency_stats_ms md"
| "scale_stats md Second = latency_stats_s md"

fun io_latency_attr :: "dm_latency_config \<Rightarrow> scale \<Rightarrow> dm_sysfs_attr" where
  "io_latency_attr cfg Micro = dm_attr_io_latency_us cfg"
| "io_latency_attr cfg Milli = dm_attr_io_latency_ms cfg"
| "io_latency_attr cfg Second = dm_attr_io_latency_s cfg"

text \<open>
  The text the spec asks of a latency read, over the integers: bucket \<open>i\<close> of grain
  size \<open>g\<close> covers \<open>lo = i * g\<close> to \<open>hi = lo + g - 1\<close>, its line is
  \<open><lo>-<hi>(<unit>):<count>\<close> and a newline, and the text is the lines of the buckets
  in ascending order.
\<close>

definition bucket_lo :: "int \<Rightarrow> nat \<Rightarrow> int" where
  "bucket_lo g i = int i * g"

definition bucket_hi :: "int \<Rightarrow> nat \<Rightarrow> int" where
  "bucket_hi g i = bucket_lo g i + g - 1"

definition bucket_line :: "string \<Rightarrow> int \<Rightarrow> nat \<Rightarrow> int \<Rightarrow> string" where
  "bucket_line unit g i count =
     dec_int (bucket_lo g i) @ ''-'' @ dec_int (bucket_hi g i) @ ''('' @ unit @ ''):''
       @ dec_int count @ ''\<newline>''"

definition histogram_text :: "string \<Rightarrow> int \<Rightarrow> int list \<Rightarrow> string" where
  "histogram_text unit g counts =
     concat (map (\<lambda>i. bucket_line unit g i (counts ! i)) [0..<length counts])"

text \<open>The page after the string \<open>s\<close> and its terminator were stored at offset \<open>ptr\<close>.\<close>

definition written :: "page \<Rightarrow> nat \<Rightarrow> string \<Rightarrow> page" where
  "written buf ptr s = take ptr buf @ s @ NUL # drop (ptr + length s + 1) buf"

text \<open>The registry after one acquisition and one release of the reference on \<open>kobj\<close>.\<close>

definition paired :: "dm_registry \<Rightarrow> kobject \<Rightarrow> dm_registry" where
  "paired reg kobj = reg\<lparr>ref_log := ref_log reg @ [Acquire kobj, Release kobj]\<rparr>"

text \<open>
  Line \<open>j\<close> as the loop formats it, in the arithmetic of \<open>int\<close>: \<open>slot_base\<close> is
  \<open>j\<close> times the grain size modulo \<open>2 ^ 32\<close>.
\<close>

definition word_line :: "string \<Rightarrow> c_int \<Rightarrow> c_int list \<Rightarrow> nat \<Rightarrow> string" where
  "word_line unit G stats j =
     fmt_latency unit (of_nat j * G) (of_nat j * G + G - 1) (stats ! j)"

text \<open>The device after the reset: every counter of every scale is zero, the rest is as before.\<close>

definition zeroed :: "dm_latency_config \<Rightarrow> mapped_device \<Rightarrow> mapped_device" where
  "zeroed cfg md =
     md\<lparr>latency_stats_us := replicate (DM_LATENCY_STATS_US_NR cfg) 0,
        latency_stats_ms := replicate (DM_LATENCY_STATS_MS_NR cfg) 0,
        latency_stats_s := replicate (DM_LATENCY_STATS_S_NR cfg) 0\<rparr>"

text \<open>
  Modelled from the spec: the increment of bucket \<open>i\<close> of a scale by \<open>k\<close>, which the
  observer outside the file performs on the device.
\<close>

fun increment_bucket :: "scale \<Rightarrow> nat \<Rightarrow> nat \<Rightarrow> mapped_device \<Rightarrow> mapped_device" where
  "increment_bucket Micro i k md =
     md\<lparr>latency_stats_us := (latency_stats_us md)[i := atomic_add k (latency_stats_us md ! i)]\<rparr>"
| "increment_bucket Milli i k md =
     md\<lparr>latency_stats_ms := (latency_stats_ms md)[i := atomic_add k (latency_stats_ms md ! i)]\<rparr>"
| "increment_bucket Second i k md =
     md\<lparr>latency_stats_s := (latency_stats_s md)[i := atomic_add k (latency_stats_s md ! i)]\<rparr>"

text \<open>
  An example: the bucket counts and grain sizes of the spec's concrete scenario for the
  microsecond scale, a device that has counted nothing, and a registry that holds it as
  kobject 0.
\<close>

definition cfg_example :: dm_latency_config where
  "cfg_example =
     \<lparr>DM_LATENCY_STATS_US_NR = 5, DM_LATENCY_STATS_US_GRAINSIZE = 100,
      DM_LATENCY_STATS_MS_NR = 3, DM_LATENCY_STATS_MS_GRAINSIZE = 10,
      DM_LATENCY_STATS_S_NR = 2, DM_LATENCY_STATS_S_GRAINSIZE = 1\<rparr>"

definition md_example :: mapped_device where
  "md_example =
     \<lparr>hash_cell = Some (''vol0'', ''uuid-0''), suspended = False,
      latency_stats_us = [0, 0, 0, 0, 0], latency_stats_ms = [0, 0, 0],
      latency_stats_s = [0, 0]\<rparr>"

definition reg_example :: dm_registry where
  "reg_example = \<lparr>live = [0 \<mapsto> md_example], holders = (\<lambda>k. 0), ref_log = []\<rparr>"

definition page_example :: page where
  "page_example = replicate 80 NUL"

text \<open>
  The decimal text of a counter whose 32 bits are read as the unsigned value \<open>v\<close>:
  \<open>v\<close> itself below \<open>2 ^ 31\<close>, and from there on a minus sign and \<open>2 ^ 32 - v\<close>.
\<close>

definition signed_count_text :: "c_int \<Rightarrow> string" where
  "signed_count_text c =
     (if unat c < 2 ^ 31 then dec (unat c) else CHR ''-'' # dec (2 ^ 32 - unat c))"

text \<open>
  The example device after \<open>2 ^ 31\<close> increments of its first microsecond bucket, and the
  registry that holds it as kobject 0.
\<close>

definition md_wrapped :: mapped_device where
  "md_wrapped = increment_bucket Micro 0 (2 ^ 31) md_example"

definition reg_wrapped :: dm_registry where
  "reg_wrapped = reg_example\<lparr>live := [0 \<mapsto> md_wrapped]\<rparr>"

subsection \<open>Strings, pages and the conversion\<close>

lemma digit_char_in: "d < 10 \<Longrightarrow> digit_char d \<in> set ''0123456789''"
  unfolding digit_char_def by (rule nth_mem) simp

lemma set_dec: "set (dec n) \<subseteq> set ''0123456789''"
proof (induction n rule: dec.induct)
  case (1 n)
  show ?case
  proof (cases "n < 10")
    case True
    then show ?thesis
      using digit_char_in [of n] by (subst dec.simps) simp
  next
    case False
    have "digit_char (n mod 10) \<in> set ''0123456789''"
      by (rule digit_char_in) simp
    with False "1" show ?thesis
      by (subst dec.simps) simp
  qed
qed

lemma dec_int_chars:
  assumes "c \<in> set (dec_int v)"
  shows "c = CHR ''-'' \<or> c \<in> set ''0123456789''"
proof (cases "v < 0")
  case True
  with assms have "c = CHR ''-'' \<or> c \<in> set (dec (nat (- v)))"
    by (simp add: dec_int_def)
  then show ?thesis using set_dec by blast
next
  case False
  with assms have "c \<in> set (dec (nat v))"
    by (simp add: dec_int_def)
  then show ?thesis using set_dec by blast
qed

lemma NUL_notin_dec_int: "NUL \<notin> set (dec_int v)"
proof
  assume "NUL \<in> set (dec_int v)"
  then have "NUL = CHR ''-'' \<or> NUL \<in> set ''0123456789''"
    by (rule dec_int_chars)
  then show False by (simp add: NUL_def)
qed

lemma newline_notin_dec_int: "CHR 0x0A \<notin> set (dec_int v)"
proof
  assume "CHR 0x0A \<in> set (dec_int v)"
  then have "CHR 0x0A = CHR ''-'' \<or> CHR 0x0A \<in> set ''0123456789''"
    by (rule dec_int_chars)
  then show False by simp
qed

lemma strlen_terminated:
  assumes "NUL \<notin> set s"
  shows "strlen (s @ NUL # rest) = Some (length s)"
proof -
  have "takeWhile (\<lambda>c. c \<noteq> NUL) (s @ NUL # rest) = s"
    using assms by (induction s) auto
  then show ?thesis by (simp add: strlen_def)
qed

lemma store_str_written:
  "ptr + length s < length buf \<Longrightarrow> store_str buf ptr s = Some (written buf ptr s)"
  by (simp add: store_str_def written_def)

lemma length_written:
  "ptr + length s < length buf \<Longrightarrow> length (written buf ptr s) = length buf"
  by (simp add: written_def)

lemma written_written:
  assumes "ptr + length s + length t < length buf"
  shows "written (written buf ptr s) (ptr + length s) t = written buf ptr (s @ t)"
proof -
  have "take (ptr + length s) (written buf ptr s) = take ptr buf @ s"
    using assms by (simp add: written_def)
  moreover have "drop (ptr + length s + length t + 1) (written buf ptr s)
      = drop (ptr + length (s @ t) + 1) buf"
    using assms by (simp add: written_def add.commute add.left_commute)
  ultimately show ?thesis
    by (simp add: written_def)
qed

lemma io_latency_loop_written:
  assumes "NR \<le> length stats" and "i < NR"
    and "ptr + length (concat (map (word_line unit G stats) [i..<NR])) < length buf"
    and "slot_base = of_nat i * G"
  shows "io_latency_loop unit NR G stats buf ptr slot_base i =
           Some (written buf ptr (concat (map (word_line unit G stats) [i..<NR])))"
  using assms
proof (induction unit NR G stats buf ptr slot_base i rule: io_latency_loop.induct)
  case (1 unit NR G stats buf ptr slot_base i)
  let ?s = "word_line unit G stats i"
  let ?rest = "concat (map (word_line unit G stats) [Suc i..<NR])"
  have all: "concat (map (word_line unit G stats) [i..<NR]) = ?s @ ?rest"
    using "1.prems"(2) by (simp add: upt_conv_Cons)
  have fmt: "fmt_latency unit slot_base (slot_base + G - 1) (stats ! i) = ?s"
    using "1.prems"(4) by (simp add: word_line_def)
  have rd: "atomic_read_at stats i = Some (stats ! i)"
    using "1.prems"(1,2) by (simp add: atomic_read_at_def)
  have fits: "ptr + length ?s + length ?rest < length buf"
    using "1.prems"(3) by (simp add: all)
  then have sp: "sprintf buf ptr ?s = Some (written buf ptr ?s, int (length ?s))"
    by (simp add: sprintf_def store_str_written)
  have sp': "sprintf buf ptr (fmt_latency unit slot_base (slot_base + G - 1) (stats ! i))
      = Some (written buf ptr ?s, int (length ?s))"
    using sp by (simp only: fmt)
  show ?case
  proof (cases "Suc i < NR")
    case True
    have "io_latency_loop unit NR G stats (written buf ptr ?s) (ptr + nat (int (length ?s)))
            (slot_base + G) (i + 1)
          = Some (written (written buf ptr ?s) (ptr + nat (int (length ?s)))
               (concat (map (word_line unit G stats) [i + 1..<NR])))"
    proof (rule "1.IH" [OF "1.prems"(2) rd sp' refl])
      show "\<not> int (length ?s) < 0" by simp
      show "NR \<le> length stats" by (rule "1.prems"(1))
      show "i + 1 < NR" using True by simp
      show "ptr + nat (int (length ?s)) + length (concat (map (word_line unit G stats) [i + 1..<NR]))
            < length (written buf ptr ?s)"
        using fits by (simp add: length_written)
      show "slot_base + G = word_of_nat (i + 1) * G"
        unfolding "1.prems"(4) by (simp add: distrib_right)
    qed
    then have "io_latency_loop unit NR G stats (written buf ptr ?s) (ptr + length ?s)
            (slot_base + G) (Suc i) = Some (written buf ptr (?s @ ?rest))"
      using fits by (simp add: written_written)
    then show ?thesis
      using "1.prems"(2) rd sp'
      by (subst io_latency_loop.simps) (simp add: all)
  next
    case False
    with "1.prems"(2) have "NR = Suc i" by simp
    then have "?s @ ?rest = ?s" by simp
    moreover have "io_latency_loop unit NR G stats (written buf ptr ?s) (ptr + length ?s)
            (slot_base + G) (Suc i) = Some (written buf ptr ?s)"
      using False by (subst io_latency_loop.simps) simp
    ultimately show ?thesis
      using "1.prems"(2) rd sp'
      by (subst io_latency_loop.simps) (simp only: all, simp)
  qed
qed


lemma sint_of_int_small:
  "- (2 ^ 31) \<le> x \<Longrightarrow> x < 2 ^ 31 \<Longrightarrow> sint (word_of_int x :: c_int) = x"
  by (simp add: sint_sbintrunc' signed_take_bit_int_eq_self)


lemma slot_base_sint:
  assumes "0 < sint G" and "int NR * sint G \<le> 2 ^ 31" and "j < NR"
  shows "sint (of_nat j * G :: c_int) = bucket_lo (sint G) j"
    and "sint (of_nat j * G + G - 1 :: c_int) = bucket_hi (sint G) j"
proof -
  let ?g = "sint G"
  have "int (Suc j) * ?g \<le> int NR * ?g"
    using assms(1,3) by (intro mult_right_mono) simp_all
  then have up: "int j * ?g + ?g \<le> 2 ^ 31"
    using assms(2) by (simp add: distrib_right)
  have low: "0 \<le> int j * ?g"
    using assms(1) by simp
  have lo: "of_nat j * G = (word_of_int (int j * ?g) :: c_int)"
    by simp
  have hi: "of_nat j * G + G - 1 = (word_of_int (int j * ?g + ?g - 1) :: c_int)"
    by simp
  show "sint (of_nat j * G :: c_int) = bucket_lo (sint G) j"
    unfolding lo bucket_lo_def using up low assms(1)
    by (intro sint_of_int_small) linarith+
  show "sint (of_nat j * G + G - 1 :: c_int) = bucket_hi (sint G) j"
    unfolding hi bucket_hi_def bucket_lo_def using up low assms(1)
    by (intro sint_of_int_small) linarith+
qed

lemma word_line_bucket_line:
  assumes "0 < sint G" and "int NR * sint G \<le> 2 ^ 31" and "j < NR"
  shows "word_line unit G stats j = bucket_line unit (sint G) j (sint (stats ! j))"
  by (simp add: word_line_def fmt_latency_def fmt_d_def bucket_line_def
      slot_base_sint [OF assms])

lemma word_lines_histogram_text:
  assumes "0 < sint G" and "int NR * sint G \<le> 2 ^ 31" and "length stats = NR"
  shows "concat (map (word_line unit G stats) [0..<NR])
           = histogram_text unit (sint G) (map sint stats)"
proof -
  have "map (word_line unit G stats) [0..<NR]
      = map (\<lambda>i. bucket_line unit (sint G) i (map sint stats ! i)) [0..<NR]"
    using assms by (intro map_cong refl) (simp add: word_line_bucket_line)
  then show ?thesis
    unfolding histogram_text_def by (simp only: length_map assms(3))
qed


lemma NUL_notin_bucket_line:
  "NUL \<notin> set unit \<Longrightarrow> NUL \<notin> set (bucket_line unit g i c)"
  using NUL_notin_dec_int by (simp add: bucket_line_def NUL_def)

lemma NUL_notin_histogram_text:
  "NUL \<notin> set unit \<Longrightarrow> NUL \<notin> set (histogram_text unit g counts)"
  by (simp add: histogram_text_def NUL_notin_bucket_line)

lemma NUL_notin_scale_unit: "NUL \<notin> set (scale_unit sc)"
  by (cases sc) (simp_all add: NUL_def)

lemma io_latency_show_text:
  assumes "length stats = NR" and "0 < NR"
    and "0 < sint G" and "int NR * sint G \<le> 2 ^ 31"
    and "NUL \<notin> set unit"
    and "length (histogram_text unit (sint G) (map sint stats)) < length buf"
  shows "io_latency_show unit NR G stats buf =
           Some (of_nat (length (histogram_text unit (sint G) (map sint stats))),
                 written buf 0 (histogram_text unit (sint G) (map sint stats)))"
proof -
  let ?out = "histogram_text unit (sint G) (map sint stats)"
  have out: "concat (map (word_line unit G stats) [0..<NR]) = ?out"
    using assms(3,4,1) by (rule word_lines_histogram_text)
  have "io_latency_loop unit NR G stats buf 0 0 0
      = Some (written buf 0 (concat (map (word_line unit G stats) [0..<NR])))"
    using assms(1,2,6) by (intro io_latency_loop_written) (simp_all add: out)
  then have loop: "io_latency_loop unit NR G stats buf 0 0 0 = Some (written buf 0 ?out)"
    by (simp only: out)
  have "strlen (written buf 0 ?out) = Some (length ?out)"
    using NUL_notin_histogram_text [OF assms(5)] by (simp add: written_def strlen_terminated)
  with loop show ?thesis
    by (simp add: io_latency_show_def)
qed

lemma dm_attr_show_resolved:
  assumes "dm_show a = Some f" and "live reg kobj = Some md"
    and "f md page = Some (ret, page', md')"
  shows "dm_attr_show reg kobj a page
           = Some (ret, page', (paired reg kobj)\<lparr>live := (live reg)(kobj \<mapsto> md')\<rparr>)"
  using assms by (simp add: dm_attr_show_def dm_get_from_kobject_def dm_put_def paired_def)

lemma dm_attr_store_resolved:
  assumes "dm_store a = Some g" and "live reg kobj = Some md"
    and "g md payload len = Some (ret, md')"
  shows "dm_attr_store reg kobj a payload len
           = Some (ret, (paired reg kobj)\<lparr>live := (live reg)(kobj \<mapsto> md')\<rparr>)"
  using assms by (simp add: dm_attr_store_def dm_get_from_kobject_def dm_put_def paired_def)

lemma paired_live_same:
  "live reg kobj = Some md \<Longrightarrow> (paired reg kobj)\<lparr>live := (live reg)(kobj \<mapsto> md)\<rparr> = paired reg kobj"
  by (simp add: paired_def map_upd_triv)

lemma io_latency_attr_show:
  "dm_show (io_latency_attr cfg sc) =
     Some (\<lambda>md buf. map_option (\<lambda>(ret, buf'). (ret, buf', md))
       (io_latency_show (scale_unit sc) (scale_nr cfg sc) (scale_grainsize cfg sc)
          (scale_stats md sc) buf))"
  by (cases sc)
    (simp_all add: dm_attr_io_latency_us_def dm_attr_io_latency_ms_def dm_attr_io_latency_s_def
      DM_ATTR_RO_def dm_attr_io_latency_us_show_def dm_attr_io_latency_ms_show_def
      dm_attr_io_latency_s_show_def fun_eq_iff)

lemma io_latency_read:
  assumes "live reg kobj = Some md"
    and "length (scale_stats md sc) = scale_nr cfg sc" and "0 < scale_nr cfg sc"
    and "0 < sint (scale_grainsize cfg sc)"
    and "int (scale_nr cfg sc) * sint (scale_grainsize cfg sc) \<le> 2 ^ 31"
    and "length (histogram_text (scale_unit sc) (sint (scale_grainsize cfg sc))
           (map sint (scale_stats md sc))) < length page"
  shows "dm_attr_show reg kobj (io_latency_attr cfg sc) page =
           Some (of_nat (length (histogram_text (scale_unit sc) (sint (scale_grainsize cfg sc))
                   (map sint (scale_stats md sc)))),
                 written page 0 (histogram_text (scale_unit sc) (sint (scale_grainsize cfg sc))
                   (map sint (scale_stats md sc))),
                 paired reg kobj)"
proof -
  let ?out = "histogram_text (scale_unit sc) (sint (scale_grainsize cfg sc))
                (map sint (scale_stats md sc))"
  have cb: "io_latency_show (scale_unit sc) (scale_nr cfg sc) (scale_grainsize cfg sc)
              (scale_stats md sc) page = Some (of_nat (length ?out), written page 0 ?out)"
    using assms(2-5) NUL_notin_scale_unit assms(6) by (rule io_latency_show_text)
  have "dm_attr_show reg kobj (io_latency_attr cfg sc) page
      = Some (of_nat (length ?out), written page 0 ?out,
              (paired reg kobj)\<lparr>live := (live reg)(kobj \<mapsto> md)\<rparr>)"
    by (rule dm_attr_show_resolved [OF io_latency_attr_show assms(1)]) (simp add: cb)
  then show ?thesis
    by (simp only: paired_live_same [OF assms(1)])
qed

lemma take_written: "take (length s) (written buf 0 s) = s"
  by (simp add: written_def)

lemma newlines_bucket_line:
  assumes "CHR 0x0A \<notin> set unit"
  shows "filter (\<lambda>c. c = CHR 0x0A) (bucket_line unit g i c) = [CHR 0x0A]"
proof -
  have "filter (\<lambda>c. c = CHR 0x0A) (dec_int v) = []" for v
    using newline_notin_dec_int [of v] by (auto simp: filter_empty_conv)
  moreover have "filter (\<lambda>c. c = CHR 0x0A) unit = []"
    using assms by (auto simp: filter_empty_conv)
  ultimately show ?thesis
    by (simp add: bucket_line_def)
qed

lemma newlines_concat:
  assumes "\<And>x. filter P (f x) = [c]"
  shows "length (filter P (concat (map f xs))) = length xs"
  by (induction xs) (simp_all add: assms)

lemma newlines_histogram_text:
  assumes "CHR 0x0A \<notin> set unit"
  shows "length (filter (\<lambda>c. c = CHR 0x0A) (histogram_text unit g counts)) = length counts"
  unfolding histogram_text_def
  using newlines_concat [of "\<lambda>c. c = CHR 0x0A" "\<lambda>i. bucket_line unit g i (counts ! i)"
      "CHR 0x0A" "[0..<length counts]"] newlines_bucket_line [OF assms]
  by simp

lemma newline_notin_scale_unit: "CHR 0x0A \<notin> set (scale_unit sc)"
  by (cases sc) simp_all

lemma histogram_text_lines:
  "histogram_text unit g (map sint stats)
     = concat (map (\<lambda>i. bucket_line unit g i (sint (stats ! i))) [0..<length stats])"
proof -
  have "map (\<lambda>i. bucket_line unit g i (map sint stats ! i)) [0..<length stats]
      = map (\<lambda>i. bucket_line unit g i (sint (stats ! i))) [0..<length stats]"
    by (rule map_cong) simp_all
  then show ?thesis
    unfolding histogram_text_def by (simp only: length_map)
qed

lemma buckets_adjacent:
  assumes "0 < g"
  shows "bucket_lo g i = int i * g \<and> bucket_hi g i = bucket_lo g i + g - 1
         \<and> bucket_lo g (Suc i) = bucket_hi g i + 1 \<and> bucket_lo g i < bucket_lo g (Suc i)"
  using assms by (simp add: bucket_lo_def bucket_hi_def distrib_right)

subsection \<open>The dispatchers and the small callbacks\<close>

lemma dm_get_from_kobject_fails:
  "fst (dm_get_from_kobject reg kobj) = None \<longleftrightarrow> live reg kobj = None"
  by (simp add: dm_get_from_kobject_def split: option.splits)

lemma dm_attr_suspended_show_text:
  assumes "2 < length buf"
  shows "dm_attr_suspended_show md buf
           = Some (2, written buf 0 (if suspended md then ''1\<newline>'' else ''0\<newline>''), md)"
proof -
  have fmt: "fmt_d (dm_suspended_md md) @ ''\<newline>'' = (if suspended md then ''1\<newline>'' else ''0\<newline>'')"
    by (simp add: fmt_d_def dm_suspended_md_def dec_int_def dec.simps digit_char_def)
  have "strlen (written buf 0 (if suspended md then ''1\<newline>'' else ''0\<newline>'')) = Some 2"
    by (simp add: written_def strlen_def NUL_def)
  then show ?thesis
    using assms by (simp add: dm_attr_suspended_show_def fmt sprintf_def store_str_written)
qed

subsection \<open>Counters read as signed and as unsigned\<close>

lemma unat_less_uint: "unat (c :: c_int) < n \<longleftrightarrow> uint c < int n"
proof -
  have "uint c = int (unat c)"
    by simp
  then show ?thesis
    by (simp only: of_nat_less_iff)
qed

lemma sint_by_unat:
  "sint (c :: c_int) = (if unat c < 2 ^ 31 then int (unat c) else int (unat c) - 2 ^ 32)"
proof -
  have s: "sint c = (uint c + 2 ^ 31) mod 2 ^ 32 - 2 ^ 31"
    using int_word_sint [of "uint c", where 'a = 32] by simp
  have b: "0 \<le> uint c" "uint c < 2 ^ 32"
    using uint_lt2p [of c] by simp_all
  have u: "int (unat c) = uint c"
    by simp
  show ?thesis
  proof (cases "unat c < 2 ^ 31")
    case True
    then have "uint c < int (2 ^ 31)"
      by (simp only: unat_less_uint)
    then have "uint c < 2 ^ 31"
      by simp
    then have "(uint c + 2 ^ 31) mod 2 ^ 32 = uint c + 2 ^ 31"
      using b by (intro mod_pos_pos_trivial) simp_all
    then show ?thesis
      using True s u by simp
  next
    case False
    then have "\<not> uint c < int (2 ^ 31)"
      by (simp only: unat_less_uint not_False_eq_True)
    then have ge: "2 ^ 31 \<le> uint c"
      by simp
    have "(uint c + 2 ^ 31 - 2 ^ 32) mod 2 ^ 32 = (uint c + 2 ^ 31) mod 2 ^ 32"
      by (rule minus_mod_self2)
    moreover have "(uint c + 2 ^ 31 - 2 ^ 32) mod 2 ^ 32 = uint c + 2 ^ 31 - 2 ^ 32"
      using b ge by (intro mod_pos_pos_trivial) simp_all
    ultimately have "(uint c + 2 ^ 31) mod 2 ^ 32 = uint c + 2 ^ 31 - 2 ^ 32"
      by (simp only:)
    then show ?thesis
      using False s u by simp
  qed
qed

lemma dec_int_negative:
  fixes n :: nat
  assumes "\<not> n < 2 ^ 31" and "n < 2 ^ 32"
  shows "dec_int (int n - 2 ^ 32) = CHR ''-'' # dec (2 ^ 32 - n)"
proof -
  have "int n - 2 ^ 32 < 0" and "nat (- (int n - 2 ^ 32)) = 2 ^ 32 - n"
    using assms by simp_all
  then show ?thesis
    by (simp only: dec_int_def if_True)
qed

lemma fmt_d_by_unat:
  "fmt_d c = (if unat c < 2 ^ 31 then dec (unat c) else CHR ''-'' # dec (2 ^ 32 - unat c))"
proof (cases "unat c < 2 ^ 31")
  case True
  then have "fmt_d c = dec_int (int (unat c))"
    by (simp only: fmt_d_def sint_by_unat if_True)
  also have "\<dots> = dec (unat c)"
    by (simp only: dec_int_def nat_int) simp
  finally show ?thesis
    using True by (simp only: if_True)
next
  case False
  have "uint c < int (2 ^ 32)"
    using uint_lt2p [of c] by simp
  then have lt: "unat c < 2 ^ 32"
    by (simp only: unat_less_uint)
  from False have "fmt_d c = dec_int (int (unat c) - 2 ^ 32)"
    by (simp only: fmt_d_def sint_by_unat if_False)
  also have "\<dots> = CHR ''-'' # dec (2 ^ 32 - unat c)"
    using False lt by (rule dec_int_negative)
  finally show ?thesis
    using False by (simp only: if_False)
qed

lemma bucket_line_signed_count:
  "bucket_line unit g i (sint c) =
     dec_int (bucket_lo g i) @ ''-'' @ dec_int (bucket_hi g i) @ ''('' @ unit @ ''):''
       @ signed_count_text c @ ''\<newline>''"
  using fmt_d_by_unat [of c]
  by (simp only: bucket_line_def signed_count_text_def fmt_d_def)

lemma us_text_example:
  "histogram_text ''us'' 100 [0, 0, 0, 0, 0]
     = ''0-99(us):0\<newline>100-199(us):0\<newline>200-299(us):0\<newline>300-399(us):0\<newline>400-499(us):0\<newline>''"
  by code_simp

subsection \<open>The reset and the increments\<close>

lemma atomic_set_loop_zero:
  assumes "i \<le> NR" and "length stats = NR"
  shows "atomic_set_loop NR stats i = Some (take i stats @ replicate (NR - i) 0)"
  using assms
proof (induction NR stats i rule: atomic_set_loop.induct)
  case (1 NR stats i)
  show ?case
  proof (cases "i < NR")
    case True
    then have "atomic_set_loop NR (stats[i := 0]) (i + 1)
        = Some (take (i + 1) (stats[i := 0]) @ replicate (NR - (i + 1)) 0)"
      using "1.prems" by (intro "1.IH") simp_all
    moreover have "take (i + 1) (stats[i := 0]) = take i stats @ [0]"
      using True "1.prems"(2) by (simp add: take_Suc_conv_app_nth)
    moreover have "replicate (NR - i) (0 :: c_int) = 0 # replicate (NR - (i + 1)) 0"
      using True by (simp add: Suc_diff_Suc flip: replicate_Suc)
    ultimately show ?thesis
      using True "1.prems"(2) by (subst atomic_set_loop.simps) simp
  next
    case False
    with "1.prems" have "i = NR" by simp
    then show ?thesis
      using "1.prems"(2) by (subst atomic_set_loop.simps) simp
  qed
qed

lemma dm_attr_io_latency_reset_store_zeroed:
  assumes "length (latency_stats_us md) = DM_LATENCY_STATS_US_NR cfg"
    and "length (latency_stats_ms md) = DM_LATENCY_STATS_MS_NR cfg"
    and "length (latency_stats_s md) = DM_LATENCY_STATS_S_NR cfg"
  shows "dm_attr_io_latency_reset_store cfg md buf len = Some (len, zeroed cfg md)"
  using assms by (simp add: dm_attr_io_latency_reset_store_def atomic_set_loop_zero zeroed_def)

lemma scale_stats_zeroed: "scale_stats (zeroed cfg md) sc = replicate (scale_nr cfg sc) 0"
  by (cases sc) (simp_all add: zeroed_def)

lemma zeroed_zeroed: "zeroed cfg (zeroed cfg md) = zeroed cfg md"
  by (simp add: zeroed_def)

lemma sint_size_t:
  assumes "unat (len :: size_t) < 2 ^ 63"
  shows "sint len = int (unat len)"
proof -
  have s: "sint len = (uint len + 2 ^ 63) mod 2 ^ 64 - 2 ^ 63"
    using int_word_sint [of "uint len", where 'a = 64] by simp
  have "uint len = int (unat len)"
    by simp
  also have "\<dots> < int (2 ^ 63)"
    using assms by (simp only: of_nat_less_iff)
  finally have lt: "uint len < 2 ^ 63"
    by simp
  have "0 \<le> uint len"
    by simp
  with lt have "(uint len + 2 ^ 63) mod 2 ^ 64 = uint len + 2 ^ 63"
    by (intro mod_pos_pos_trivial) simp_all
  with s show ?thesis
    by simp
qed

lemma scale_stats_increment_bucket:
  "scale_stats (increment_bucket sc i k md) sc
     = (scale_stats md sc)[i := atomic_add k (scale_stats md sc ! i)]"
  by (cases sc) simp_all

lemma sint_of_nat_small:
  assumes "k < 2 ^ 31"
  shows "sint (of_nat k :: c_int) = int k"
proof -
  have "int k < int (2 ^ 31)"
    using assms by (simp only: of_nat_less_iff)
  then have "int k < 2 ^ 31"
    by simp
  then have "sint (word_of_int (int k) :: c_int) = int k"
    by (intro sint_of_int_small) simp_all
  then show ?thesis
    by simp
qed

lemma histogram_text_one_count:
  assumes "i < n"
  shows "histogram_text unit g ((replicate n 0)[i := c])
           = concat (map (\<lambda>j. bucket_line unit g j (if j = i then c else 0)) [0..<n])"
proof -
  have "map (\<lambda>j. bucket_line unit g j ((replicate n 0)[i := c] ! j)) [0..<n]
      = map (\<lambda>j. bucket_line unit g j (if j = i then c else 0)) [0..<n]"
    by (rule map_cong) (simp_all add: nth_list_update)
  then show ?thesis
    unfolding histogram_text_def by (simp only: length_list_update length_replicate)
qed

lemma wrapped_stats: "map sint (scale_stats md_wrapped Micro) = [- 2147483648, 0, 0, 0, 0]"
  by (simp add: md_wrapped_def md_example_def atomic_add_def)

lemma claimed_counts: "(replicate 5 0)[0 := 2 ^ 31] = [2147483648 :: int, 0, 0, 0, 0]"
  by (simp add: numeral_eq_Suc)

lemma wrapped_text:
  "histogram_text ''us'' 100 [- 2147483648, 0, 0, 0, 0]
   = ''0-99(us):-2147483648\<newline>100-199(us):0\<newline>200-299(us):0\<newline>300-399(us):0\<newline>400-499(us):0\<newline>''"
  by (simp add: histogram_text_def bucket_line_def bucket_lo_def bucket_hi_def dec_int_def dec.simps
      digit_char_def)

lemma claimed_text:
  "histogram_text ''us'' 100 [2147483648, 0, 0, 0, 0]
   = ''0-99(us):2147483648\<newline>100-199(us):0\<newline>200-299(us):0\<newline>300-399(us):0\<newline>400-499(us):0\<newline>''"
  by (simp add: histogram_text_def bucket_line_def bucket_lo_def bucket_hi_def dec_int_def dec.simps
      digit_char_def)

section \<open>The claims\<close>

subsection \<open>Reading a latency histogram\<close>

text \<open>
  C1. For each of the three latency attributes, a read on a device that resolves returns
  one line for each of the \<open>N\<close> buckets of the scale and nothing else, in ascending
  order of the bucket index: line \<open>i\<close> is \<open><lo>-<hi>(<unit>):<count>\<close> and a newline
  with \<open>lo = i * GRAINSIZE\<close>, \<open>hi = lo + GRAINSIZE - 1\<close> and the value of counter \<open>i\<close>
  as count, so that each bucket starts one above the end of the one before it.

  The result of the dispatcher is the length of that text, the page holds the text from
  its first byte on, followed by the terminator, and the reference taken on the device
  has been given back. The hypotheses say what the C relies on: the array of the scale
  has the \<open>N\<close> counters of its declaration, \<open>N\<close> and the grain size are positive, the
  bounds of the buckets stay within \<open>int\<close>, and the text with its terminator fits
  into the page.
\<close>

theorem io_latency_read_lines:
  assumes "live reg kobj = Some md"
    and "length (scale_stats md sc) = scale_nr cfg sc" and "0 < scale_nr cfg sc"
    and "0 < sint (scale_grainsize cfg sc)"
    and "int (scale_nr cfg sc) * sint (scale_grainsize cfg sc) \<le> 2 ^ 31"
    and "length (histogram_text (scale_unit sc) (sint (scale_grainsize cfg sc))
           (map sint (scale_stats md sc))) < length page"
  shows "(let g = sint (scale_grainsize cfg sc);
              out = histogram_text (scale_unit sc) g (map sint (scale_stats md sc))
          in dm_attr_show reg kobj (io_latency_attr cfg sc) page
               = Some (of_nat (length out), written page 0 out, paired reg kobj)
             \<and> take (length out) (written page 0 out) = out
             \<and> out = concat (map (\<lambda>i. bucket_line (scale_unit sc) g i
                                         (sint (scale_stats md sc ! i)))
                                [0..<scale_nr cfg sc])
             \<and> length (filter (\<lambda>c. c = CHR 0x0A) out) = scale_nr cfg sc
             \<and> (\<forall>i < scale_nr cfg sc.
                    bucket_lo g i = int i * g \<and> bucket_hi g i = bucket_lo g i + g - 1
                    \<and> bucket_lo g (Suc i) = bucket_hi g i + 1
                    \<and> bucket_lo g i < bucket_lo g (Suc i)))"
proof -
  let ?g = "sint (scale_grainsize cfg sc)"
  let ?out = "histogram_text (scale_unit sc) ?g (map sint (scale_stats md sc))"
  have 1: "dm_attr_show reg kobj (io_latency_attr cfg sc) page
      = Some (of_nat (length ?out), written page 0 ?out, paired reg kobj)"
    using assms by (rule io_latency_read)
  have 2: "take (length ?out) (written page 0 ?out) = ?out"
    by (rule take_written)
  have 3: "?out = concat (map (\<lambda>i. bucket_line (scale_unit sc) ?g i
                                 (sint (scale_stats md sc ! i))) [0..<scale_nr cfg sc])"
    using histogram_text_lines [of "scale_unit sc" ?g "scale_stats md sc"]
    by (simp only: assms(2))
  have 4: "length (filter (\<lambda>c. c = CHR 0x0A) ?out) = scale_nr cfg sc"
    using newlines_histogram_text [OF newline_notin_scale_unit, of sc ?g "map sint (scale_stats md sc)"]
    by (simp add: assms(2))
  have 5: "\<forall>i < scale_nr cfg sc.
      bucket_lo ?g i = int i * ?g \<and> bucket_hi ?g i = bucket_lo ?g i + ?g - 1
      \<and> bucket_lo ?g (Suc i) = bucket_hi ?g i + 1 \<and> bucket_lo ?g i < bucket_lo ?g (Suc i)"
    using buckets_adjacent [OF assms(4)] by blast
  from 1 2 3 4 5 show ?thesis
    unfolding Let_def by (intro conjI)
qed

theorem io_latency_read_lines_witness:
  "live reg_example 0 = Some md_example
   \<and> length (scale_stats md_example Micro) = scale_nr cfg_example Micro
   \<and> 0 < scale_nr cfg_example Micro
   \<and> 0 < sint (scale_grainsize cfg_example Micro)
   \<and> int (scale_nr cfg_example Micro) * sint (scale_grainsize cfg_example Micro) \<le> 2 ^ 31
   \<and> length (histogram_text (scale_unit Micro) (sint (scale_grainsize cfg_example Micro))
         (map sint (scale_stats md_example Micro))) < length page_example
   \<and> (let g = sint (scale_grainsize cfg_example Micro);
            out = histogram_text (scale_unit Micro) g (map sint (scale_stats md_example Micro))
        in dm_attr_show reg_example 0 (io_latency_attr cfg_example Micro) page_example
             = Some (of_nat (length out), written page_example 0 out, paired reg_example 0)
           \<and> take (length out) (written page_example 0 out) = out
           \<and> out = concat (map (\<lambda>i. bucket_line (scale_unit Micro) g i
                                       (sint (scale_stats md_example Micro ! i)))
                              [0..<scale_nr cfg_example Micro])
           \<and> length (filter (\<lambda>c. c = CHR 0x0A) out) = scale_nr cfg_example Micro
           \<and> (\<forall>i < scale_nr cfg_example Micro.
                  bucket_lo g i = int i * g \<and> bucket_hi g i = bucket_lo g i + g - 1
                  \<and> bucket_lo g (Suc i) = bucket_hi g i + 1
                  \<and> bucket_lo g i < bucket_lo g (Suc i)))"
proof -
  have h1: "live reg_example 0 = Some md_example"
    by (simp add: reg_example_def)
  have h2: "length (scale_stats md_example Micro) = scale_nr cfg_example Micro"
    by (simp add: md_example_def cfg_example_def)
  have h3: "0 < scale_nr cfg_example Micro"
    by (simp add: cfg_example_def)
  have h4: "0 < sint (scale_grainsize cfg_example Micro)"
    by (simp add: cfg_example_def)
  have h5: "int (scale_nr cfg_example Micro) * sint (scale_grainsize cfg_example Micro) \<le> 2 ^ 31"
    by (simp add: cfg_example_def)
  have h6: "length (histogram_text (scale_unit Micro) (sint (scale_grainsize cfg_example Micro))
         (map sint (scale_stats md_example Micro))) < length page_example"
    by code_simp
  show ?thesis
    using io_latency_read_lines [OF h1 h2 h3 h4 h5 h6] h1 h2 h3 h4 h5 h6
    by (intro conjI)
qed

text \<open>
  C8. With a grain size of 100 and 5 buckets at the microsecond scale, reading
  \<open>io_latency_us\<close> on a device whose microsecond counters were never incremented
  gives exactly the five lines from \<open>0-99(us):0\<close> to \<open>400-499(us):0\<close>, which are 67
  characters: 67 is the result, and the page holds them and the terminator.
\<close>

theorem us_scenario:
  assumes "live reg kobj = Some md"
    and "DM_LATENCY_STATS_US_GRAINSIZE cfg = 100" and "DM_LATENCY_STATS_US_NR cfg = 5"
    and "latency_stats_us md = [0, 0, 0, 0, 0]"
    and "67 < length page"
  shows "dm_attr_show reg kobj (dm_attr_io_latency_us cfg) page
           = Some (67,
                   written page 0 ''0-99(us):0\<newline>100-199(us):0\<newline>200-299(us):0\<newline>300-399(us):0\<newline>400-499(us):0\<newline>'',
                   paired reg kobj)
         \<and> take 67 (written page 0 ''0-99(us):0\<newline>100-199(us):0\<newline>200-299(us):0\<newline>300-399(us):0\<newline>400-499(us):0\<newline>'')
           = ''0-99(us):0\<newline>100-199(us):0\<newline>200-299(us):0\<newline>300-399(us):0\<newline>400-499(us):0\<newline>''"
proof -
  let ?text = "''0-99(us):0\<newline>100-199(us):0\<newline>200-299(us):0\<newline>300-399(us):0\<newline>400-499(us):0\<newline>''"
  have text_eq: "histogram_text (scale_unit Micro) (sint (scale_grainsize cfg Micro))
      (map sint (scale_stats md Micro)) = ?text"
    using assms(2,4) by (simp add: us_text_example)
  have len: "length ?text = 67"
    by simp
  have "dm_attr_show reg kobj (io_latency_attr cfg Micro) page
      = Some (of_nat (length ?text), written page 0 ?text, paired reg kobj)"
    using io_latency_read [of reg kobj md Micro cfg page] assms
    by (simp only: text_eq len) simp
  then have "dm_attr_show reg kobj (dm_attr_io_latency_us cfg) page
      = Some (67, written page 0 ?text, paired reg kobj)"
    by (simp only: len io_latency_attr.simps) simp
  moreover have "take 67 (written page 0 ?text) = ?text"
    using take_written [of ?text page] by (simp only: len)
  ultimately show ?thesis ..
qed

theorem us_scenario_witness:
  "live reg_example 0 = Some md_example
   \<and> DM_LATENCY_STATS_US_GRAINSIZE cfg_example = 100
   \<and> DM_LATENCY_STATS_US_NR cfg_example = 5
   \<and> latency_stats_us md_example = [0, 0, 0, 0, 0]
   \<and> 67 < length page_example
   \<and> dm_attr_show reg_example 0 (dm_attr_io_latency_us cfg_example) page_example
        = Some (67,
                written page_example 0 ''0-99(us):0\<newline>100-199(us):0\<newline>200-299(us):0\<newline>300-399(us):0\<newline>400-499(us):0\<newline>'',
                paired reg_example 0)"
proof -
  have h1: "live reg_example 0 = Some md_example"
    by (simp add: reg_example_def)
  have h2: "DM_LATENCY_STATS_US_GRAINSIZE cfg_example = 100"
    by (simp add: cfg_example_def)
  have h3: "DM_LATENCY_STATS_US_NR cfg_example = 5"
    by (simp add: cfg_example_def)
  have h4: "latency_stats_us md_example = [0, 0, 0, 0, 0]"
    by (simp add: md_example_def)
  have h5: "67 < length page_example"
    by (simp add: page_example_def)
  show ?thesis
    using us_scenario [OF h1 h2 h3 h4 h5] h1 h2 h3 h4 h5
    by (intro conjI) simp_all
qed

text \<open>
  C10. In a latency read the count of a bucket is printed by \<open>%d\<close>, as a signed 32-bit
  decimal: the text of a line ends in the counter's 32 bits read as two's complement. A
  counter whose bits are an unsigned value \<open>v\<close> of \<open>2 ^ 31\<close> or more is printed as the
  negative number \<open>v - 2 ^ 32\<close>.
\<close>

theorem count_is_signed_decimal:
  assumes "live reg kobj = Some md"
    and "length (scale_stats md sc) = scale_nr cfg sc" and "0 < scale_nr cfg sc"
    and "0 < sint (scale_grainsize cfg sc)"
    and "int (scale_nr cfg sc) * sint (scale_grainsize cfg sc) \<le> 2 ^ 31"
    and "length (histogram_text (scale_unit sc) (sint (scale_grainsize cfg sc))
           (map sint (scale_stats md sc))) < length page"
  shows "(let g = sint (scale_grainsize cfg sc);
              out = concat (map (\<lambda>i. dec_int (bucket_lo g i) @ ''-'' @ dec_int (bucket_hi g i)
                                       @ ''('' @ scale_unit sc @ ''):''
                                       @ signed_count_text (scale_stats md sc ! i) @ ''\<newline>'')
                             [0..<scale_nr cfg sc])
          in dm_attr_show reg kobj (io_latency_attr cfg sc) page
               = Some (of_nat (length out), written page 0 out, paired reg kobj)
             \<and> (\<forall>i < scale_nr cfg sc.
                    signed_count_text (scale_stats md sc ! i) = dec_int (sint (scale_stats md sc ! i))
                    \<and> (2 ^ 31 \<le> unat (scale_stats md sc ! i) \<longrightarrow>
                         sint (scale_stats md sc ! i) = int (unat (scale_stats md sc ! i)) - 2 ^ 32
                         \<and> sint (scale_stats md sc ! i) < 0
                         \<and> signed_count_text (scale_stats md sc ! i)
                             = CHR ''-'' # dec (2 ^ 32 - unat (scale_stats md sc ! i)))))"
proof -
  let ?g = "sint (scale_grainsize cfg sc)"
  let ?out = "histogram_text (scale_unit sc) ?g (map sint (scale_stats md sc))"
  have 1: "dm_attr_show reg kobj (io_latency_attr cfg sc) page
      = Some (of_nat (length ?out), written page 0 ?out, paired reg kobj)"
    using assms by (rule io_latency_read)
  let ?lines = "concat (map (\<lambda>i. dec_int (bucket_lo ?g i) @ ''-'' @ dec_int (bucket_hi ?g i)
                                       @ ''('' @ scale_unit sc @ ''):''
                                       @ signed_count_text (scale_stats md sc ! i) @ ''\<newline>'')
                             [0..<scale_nr cfg sc])"
  have 2: "?out = ?lines"
    using histogram_text_lines [of "scale_unit sc" ?g "scale_stats md sc"]
    by (simp only: assms(2) bucket_line_signed_count)
  have 3: "signed_count_text c = dec_int (sint c)
      \<and> (2 ^ 31 \<le> unat c \<longrightarrow> sint c = int (unat c) - 2 ^ 32 \<and> sint c < 0
             \<and> signed_count_text c = CHR ''-'' # dec (2 ^ 32 - unat c))" for c
  proof -
    have "uint c < int (2 ^ 32)"
      using uint_lt2p [of c] by simp
    then have lt: "unat c < 2 ^ 32"
      by (simp only: unat_less_uint)
    have "signed_count_text c = dec_int (sint c)"
      using fmt_d_by_unat [of c] by (simp only: signed_count_text_def fmt_d_def)
    moreover have "sint c = int (unat c) - 2 ^ 32" if "2 ^ 31 \<le> unat c"
      using that by (simp only: sint_by_unat) simp
    moreover have "int (unat c) - 2 ^ 32 < 0"
      using uint_lt2p [of c] by simp
    moreover have "signed_count_text c = CHR ''-'' # dec (2 ^ 32 - unat c)" if "2 ^ 31 \<le> unat c"
      using that by (simp add: signed_count_text_def)
    ultimately show ?thesis
      by simp
  qed
  have 4: "dm_attr_show reg kobj (io_latency_attr cfg sc) page
      = Some (of_nat (length ?lines), written page 0 ?lines, paired reg kobj)"
    using 1 by (simp only: 2)
  have 5: "\<forall>i < scale_nr cfg sc.
      signed_count_text (scale_stats md sc ! i) = dec_int (sint (scale_stats md sc ! i))
      \<and> (2 ^ 31 \<le> unat (scale_stats md sc ! i) \<longrightarrow>
           sint (scale_stats md sc ! i) = int (unat (scale_stats md sc ! i)) - 2 ^ 32
           \<and> sint (scale_stats md sc ! i) < 0
           \<and> signed_count_text (scale_stats md sc ! i)
               = CHR ''-'' # dec (2 ^ 32 - unat (scale_stats md sc ! i)))"
    using 3 by blast
  show ?thesis
    unfolding Let_def using 4 5 by (rule conjI)
qed

text \<open>
  The theorem at the example device after \<open>2 ^ 31\<close> increments of its first microsecond
  bucket: the counter holds \<open>2 ^ 31\<close> as an unsigned value, reads as \<open>-2147483648\<close>, and
  that is the count of the first line.
\<close>

theorem count_is_signed_decimal_witness:
  "live reg_wrapped 0 = Some md_wrapped
   \<and> length (scale_stats md_wrapped Micro) = scale_nr cfg_example Micro
   \<and> 0 < scale_nr cfg_example Micro
   \<and> 0 < sint (scale_grainsize cfg_example Micro)
   \<and> int (scale_nr cfg_example Micro) * sint (scale_grainsize cfg_example Micro) \<le> 2 ^ 31
   \<and> length (histogram_text (scale_unit Micro) (sint (scale_grainsize cfg_example Micro))
         (map sint (scale_stats md_wrapped Micro))) < length page_example
   \<and> (let g = sint (scale_grainsize cfg_example Micro);
            out = concat (map (\<lambda>i. dec_int (bucket_lo g i) @ ''-'' @ dec_int (bucket_hi g i)
                                     @ ''('' @ scale_unit Micro @ ''):''
                                     @ signed_count_text (scale_stats md_wrapped Micro ! i) @ ''\<newline>'')
                           [0..<scale_nr cfg_example Micro])
        in dm_attr_show reg_wrapped 0 (io_latency_attr cfg_example Micro) page_example
             = Some (of_nat (length out), written page_example 0 out, paired reg_wrapped 0)
           \<and> (\<forall>i < scale_nr cfg_example Micro.
                  signed_count_text (scale_stats md_wrapped Micro ! i)
                    = dec_int (sint (scale_stats md_wrapped Micro ! i))
                  \<and> (2 ^ 31 \<le> unat (scale_stats md_wrapped Micro ! i) \<longrightarrow>
                       sint (scale_stats md_wrapped Micro ! i)
                         = int (unat (scale_stats md_wrapped Micro ! i)) - 2 ^ 32
                       \<and> sint (scale_stats md_wrapped Micro ! i) < 0
                       \<and> signed_count_text (scale_stats md_wrapped Micro ! i)
                           = CHR ''-'' # dec (2 ^ 32 - unat (scale_stats md_wrapped Micro ! i)))))
   \<and> 2 ^ 31 \<le> unat (scale_stats md_wrapped Micro ! 0)
   \<and> sint (scale_stats md_wrapped Micro ! 0) = - 2147483648
   \<and> sint (scale_stats md_wrapped Micro ! 0) < 0
   \<and> signed_count_text (scale_stats md_wrapped Micro ! 0) = ''-2147483648''"
proof -
  have h1: "live reg_wrapped 0 = Some md_wrapped"
    by (simp add: reg_wrapped_def)
  have h2: "length (scale_stats md_wrapped Micro) = scale_nr cfg_example Micro"
    by (simp add: md_wrapped_def md_example_def cfg_example_def)
  have h3: "0 < scale_nr cfg_example Micro"
    by (simp add: cfg_example_def)
  have h4: "0 < sint (scale_grainsize cfg_example Micro)"
    by (simp add: cfg_example_def)
  have h5: "int (scale_nr cfg_example Micro) * sint (scale_grainsize cfg_example Micro) \<le> 2 ^ 31"
    by (simp add: cfg_example_def)
  have h6: "length (histogram_text (scale_unit Micro) (sint (scale_grainsize cfg_example Micro))
         (map sint (scale_stats md_wrapped Micro))) < length page_example"
    by (simp only: wrapped_stats) (simp add: wrapped_text cfg_example_def page_example_def)
  note all = count_is_signed_decimal [OF h1 h2 h3 h4 h5 h6]
  have counter: "unat (scale_stats md_wrapped Micro ! 0) = 2147483648"
    by (simp add: md_wrapped_def md_example_def atomic_add_def)
  then have big: "2 ^ 31 \<le> unat (scale_stats md_wrapped Micro ! 0)"
    by simp
  from all h3 big
  have neg: "sint (scale_stats md_wrapped Micro ! 0)
        = int (unat (scale_stats md_wrapped Micro ! 0)) - 2 ^ 32
      \<and> sint (scale_stats md_wrapped Micro ! 0) < 0
      \<and> signed_count_text (scale_stats md_wrapped Micro ! 0)
          = CHR ''-'' # dec (2 ^ 32 - unat (scale_stats md_wrapped Micro ! 0))"
    unfolding Let_def by blast
  have digits: "dec (2 ^ 32 - 2147483648) = ''2147483648''"
    by (simp add: dec.simps digit_char_def)
  from neg have 1: "sint (scale_stats md_wrapped Micro ! 0) = - 2147483648"
    by (simp only: counter) simp
  from neg have 2: "sint (scale_stats md_wrapped Micro ! 0) < 0"
    by blast
  from neg have 3: "signed_count_text (scale_stats md_wrapped Micro ! 0) = ''-2147483648''"
    by (simp only: counter digits)
  from all h1 h2 h3 h4 h5 h6 big 1 2 3 show ?thesis
    by (intro conjI)
qed

text \<open>
  C7. From a histogram of zeros, after bucket \<open>i\<close> of a scale was incremented by \<open>k\<close>,
  a read of the scale's attribute shows count \<open>k\<close> in line \<open>i\<close> and count 0 in every
  other line, as long as \<open>k\<close> is below \<open>2 ^ 31\<close>. The bound is needed: the counter is
  an \<open>atomic_t\<close> and is printed by \<open>%d\<close>.
\<close>

theorem increment_then_read:
  assumes "live reg kobj = Some (increment_bucket sc i k md)"
    and "scale_stats md sc = replicate (scale_nr cfg sc) 0"
    and "i < scale_nr cfg sc" and "k < 2 ^ 31"
    and "0 < sint (scale_grainsize cfg sc)"
    and "int (scale_nr cfg sc) * sint (scale_grainsize cfg sc) \<le> 2 ^ 31"
    and "length (histogram_text (scale_unit sc) (sint (scale_grainsize cfg sc))
           ((replicate (scale_nr cfg sc) 0)[i := int k])) < length page"
  shows "(let g = sint (scale_grainsize cfg sc);
              out = histogram_text (scale_unit sc) g ((replicate (scale_nr cfg sc) 0)[i := int k])
          in dm_attr_show reg kobj (io_latency_attr cfg sc) page
               = Some (of_nat (length out), written page 0 out, paired reg kobj)
             \<and> out = concat (map (\<lambda>j. bucket_line (scale_unit sc) g j (if j = i then int k else 0))
                              [0..<scale_nr cfg sc]))"
proof -
  let ?g = "sint (scale_grainsize cfg sc)"
  let ?md = "increment_bucket sc i k md"
  let ?out = "histogram_text (scale_unit sc) ?g ((replicate (scale_nr cfg sc) 0)[i := int k])"
  have stats: "scale_stats ?md sc = (replicate (scale_nr cfg sc) 0)[i := of_nat k]"
    using assms(3) by (simp add: scale_stats_increment_bucket assms(2) atomic_add_def)
  have counts: "map sint (scale_stats ?md sc) = (replicate (scale_nr cfg sc) 0)[i := int k]"
    by (simp add: stats map_update sint_of_nat_small [OF assms(4)])
  have len: "length (scale_stats ?md sc) = scale_nr cfg sc"
    by (simp add: stats)
  have "0 < scale_nr cfg sc"
    using assms(3) by simp
  with assms(1) len
  have "dm_attr_show reg kobj (io_latency_attr cfg sc) page
      = Some (of_nat (length (histogram_text (scale_unit sc) ?g (map sint (scale_stats ?md sc)))),
              written page 0 (histogram_text (scale_unit sc) ?g (map sint (scale_stats ?md sc))),
              paired reg kobj)"
    using assms(5,6)
  proof (rule io_latency_read)
    show "length (histogram_text (scale_unit sc) ?g (map sint (scale_stats ?md sc))) < length page"
      using assms(7) by (simp only: counts)
  qed
  then have 1: "dm_attr_show reg kobj (io_latency_attr cfg sc) page
      = Some (of_nat (length ?out), written page 0 ?out, paired reg kobj)"
    by (simp only: counts)
  have 2: "?out = concat (map (\<lambda>j. bucket_line (scale_unit sc) ?g j (if j = i then int k else 0))
                              [0..<scale_nr cfg sc])"
    using assms(3) by (rule histogram_text_one_count)
  show ?thesis
    unfolding Let_def using 1 2 by (rule conjI)
qed

theorem increment_then_read_witness:
  "live (reg_example\<lparr>live := [0 \<mapsto> increment_bucket Micro 2 7 md_example]\<rparr>) 0
     = Some (increment_bucket Micro 2 7 md_example)
   \<and> scale_stats md_example Micro = replicate (scale_nr cfg_example Micro) 0
   \<and> 2 < scale_nr cfg_example Micro \<and> (7 :: nat) < 2 ^ 31
   \<and> 0 < sint (scale_grainsize cfg_example Micro)
   \<and> int (scale_nr cfg_example Micro) * sint (scale_grainsize cfg_example Micro) \<le> 2 ^ 31
   \<and> length (histogram_text (scale_unit Micro) (sint (scale_grainsize cfg_example Micro))
         ((replicate (scale_nr cfg_example Micro) 0)[2 := int 7])) < length page_example
   \<and> (let g = sint (scale_grainsize cfg_example Micro);
            out = histogram_text (scale_unit Micro) g
                    ((replicate (scale_nr cfg_example Micro) 0)[2 := int 7])
        in dm_attr_show (reg_example\<lparr>live := [0 \<mapsto> increment_bucket Micro 2 7 md_example]\<rparr>) 0
             (io_latency_attr cfg_example Micro) page_example
             = Some (of_nat (length out), written page_example 0 out,
                     paired (reg_example\<lparr>live := [0 \<mapsto> increment_bucket Micro 2 7 md_example]\<rparr>) 0)
           \<and> out = concat (map (\<lambda>j. bucket_line (scale_unit Micro) g j (if j = 2 then int 7 else 0))
                            [0..<scale_nr cfg_example Micro]))"
proof -
  have h1: "live (reg_example\<lparr>live := [0 \<mapsto> increment_bucket Micro 2 7 md_example]\<rparr>) 0
     = Some (increment_bucket Micro 2 7 md_example)"
    by simp
  have h2: "scale_stats md_example Micro = replicate (scale_nr cfg_example Micro) 0"
    by (simp add: md_example_def cfg_example_def numeral_eq_Suc)
  have h3: "2 < scale_nr cfg_example Micro"
    by (simp add: cfg_example_def)
  have h4: "(7 :: nat) < 2 ^ 31"
    by simp
  have h5: "0 < sint (scale_grainsize cfg_example Micro)"
    by (simp add: cfg_example_def)
  have h6: "int (scale_nr cfg_example Micro) * sint (scale_grainsize cfg_example Micro) \<le> 2 ^ 31"
    by (simp add: cfg_example_def)
  have h7: "length (histogram_text (scale_unit Micro) (sint (scale_grainsize cfg_example Micro))
         ((replicate (scale_nr cfg_example Micro) 0)[2 := int 7])) < length page_example"
    by code_simp
  show ?thesis
    using increment_then_read [OF h1 h2 h3 h4 h5 h6 h7] h1 h2 h3 h4 h5 h6 h7
    by (intro conjI)
qed

text \<open>
  C7 without the bound fails: after \<open>2 ^ 31\<close> increments of the first microsecond
  bucket of the example device, whose counters were all zero, the first line of the read
  is \<open>0-99(us):-2147483648\<close>, not \<open>0-99(us):2147483648\<close>.
\<close>

theorem increment_then_read_counterexample:
  "live reg_wrapped 0 = Some (increment_bucket Micro 0 (2 ^ 31) md_example)
   \<and> scale_stats md_example Micro = replicate (scale_nr cfg_example Micro) 0
   \<and> dm_attr_show reg_wrapped 0 (io_latency_attr cfg_example Micro) page_example
     = Some (77,
             written page_example 0 ''0-99(us):-2147483648\<newline>100-199(us):0\<newline>200-299(us):0\<newline>300-399(us):0\<newline>400-499(us):0\<newline>'',
             paired reg_wrapped 0)
   \<and> histogram_text ''us'' 100 ((replicate 5 0)[0 := 2 ^ 31])
     = ''0-99(us):2147483648\<newline>100-199(us):0\<newline>200-299(us):0\<newline>300-399(us):0\<newline>400-499(us):0\<newline>''
   \<and> dm_attr_show reg_wrapped 0 (io_latency_attr cfg_example Micro) page_example
     \<noteq> Some (of_nat (length (histogram_text ''us'' 100 ((replicate 5 0)[0 := 2 ^ 31]))),
              written page_example 0 (histogram_text ''us'' 100 ((replicate 5 0)[0 := 2 ^ 31])),
              paired reg_wrapped 0)"
proof -
  let ?actual = "''0-99(us):-2147483648\<newline>100-199(us):0\<newline>200-299(us):0\<newline>300-399(us):0\<newline>400-499(us):0\<newline>''"
  have out: "histogram_text (scale_unit Micro) (sint (scale_grainsize cfg_example Micro))
      (map sint (scale_stats md_wrapped Micro)) = ?actual"
    by (simp only: wrapped_stats) (simp add: wrapped_text cfg_example_def)
  have "dm_attr_show reg_wrapped 0 (io_latency_attr cfg_example Micro) page_example
      = Some (of_nat (length (histogram_text (scale_unit Micro)
                (sint (scale_grainsize cfg_example Micro)) (map sint (scale_stats md_wrapped Micro)))),
              written page_example 0 (histogram_text (scale_unit Micro)
                (sint (scale_grainsize cfg_example Micro)) (map sint (scale_stats md_wrapped Micro))),
              paired reg_wrapped 0)"
  proof (rule io_latency_read)
    show "live reg_wrapped 0 = Some md_wrapped"
      by (simp add: reg_wrapped_def)
    show "length (scale_stats md_wrapped Micro) = scale_nr cfg_example Micro"
      by (simp add: md_wrapped_def md_example_def cfg_example_def)
    show "0 < scale_nr cfg_example Micro"
      by (simp add: cfg_example_def)
    show "0 < sint (scale_grainsize cfg_example Micro)"
      by (simp add: cfg_example_def)
    show "int (scale_nr cfg_example Micro) * sint (scale_grainsize cfg_example Micro) \<le> 2 ^ 31"
      by (simp add: cfg_example_def)
    show "length (histogram_text (scale_unit Micro) (sint (scale_grainsize cfg_example Micro))
        (map sint (scale_stats md_wrapped Micro))) < length page_example"
      by (simp only: out) (simp add: page_example_def)
  qed
  then have 1: "dm_attr_show reg_wrapped 0 (io_latency_attr cfg_example Micro) page_example
      = Some (77, written page_example 0 ?actual, paired reg_wrapped 0)"
    by (simp only: out) simp
  have 2: "histogram_text ''us'' 100 ((replicate 5 0)[0 := 2 ^ 31])
      = ''0-99(us):2147483648\<newline>100-199(us):0\<newline>200-299(us):0\<newline>300-399(us):0\<newline>400-499(us):0\<newline>''"
    by (simp only: claimed_counts claimed_text)
  have 3: "dm_attr_show reg_wrapped 0 (io_latency_attr cfg_example Micro) page_example
     \<noteq> Some (of_nat (length (histogram_text ''us'' 100 ((replicate 5 0)[0 := 2 ^ 31]))),
              written page_example 0 (histogram_text ''us'' 100 ((replicate 5 0)[0 := 2 ^ 31])),
              paired reg_wrapped 0)"
    by (simp only: 1 2) simp
  have 4: "live reg_wrapped 0 = Some (increment_bucket Micro 0 (2 ^ 31) md_example)"
    by (simp add: reg_wrapped_def md_wrapped_def)
  have 5: "scale_stats md_example Micro = replicate (scale_nr cfg_example Micro) 0"
    by (simp add: md_example_def cfg_example_def numeral_eq_Suc)
  from 4 5 1 2 3 show ?thesis
    by (intro conjI)
qed

subsection \<open>Resetting the histograms\<close>

text \<open>
  C2. A write of \<open>io_latency_reset\<close> on a device that resolves returns the length it was
  given, whatever the payload and the length are, and leaves the device with every
  counter of the three histograms at zero and nothing else changed. The length is a
  \<open>size_t\<close> and the result a \<open>ssize_t\<close> of the same bits: for a length below \<open>2 ^ 63\<close>,
  which every length of a payload in memory is, the result read as a signed number is
  that length, so a success and not an error. The arrays have the counters of their
  declaration.
\<close>

theorem reset_store_zeroes:
  assumes "live reg kobj = Some md"
    and "length (latency_stats_us md) = DM_LATENCY_STATS_US_NR cfg"
    and "length (latency_stats_ms md) = DM_LATENCY_STATS_MS_NR cfg"
    and "length (latency_stats_s md) = DM_LATENCY_STATS_S_NR cfg"
  shows "dm_attr_store reg kobj (dm_attr_io_latency_reset cfg) payload len
           = Some (len, (paired reg kobj)\<lparr>live := (live reg)(kobj \<mapsto> zeroed cfg md)\<rparr>)
         \<and> (unat len < 2 ^ 63 \<longrightarrow> sint len = int (unat len))
         \<and> latency_stats_us (zeroed cfg md) = replicate (DM_LATENCY_STATS_US_NR cfg) 0
         \<and> latency_stats_ms (zeroed cfg md) = replicate (DM_LATENCY_STATS_MS_NR cfg) 0
         \<and> latency_stats_s (zeroed cfg md) = replicate (DM_LATENCY_STATS_S_NR cfg) 0
         \<and> hash_cell (zeroed cfg md) = hash_cell md
         \<and> suspended (zeroed cfg md) = suspended md"
proof -
  have "dm_store (dm_attr_io_latency_reset cfg) = Some (dm_attr_io_latency_reset_store cfg)"
    by (simp add: dm_attr_io_latency_reset_def DM_ATTR_RW_def)
  from dm_attr_store_resolved [OF this assms(1)
      dm_attr_io_latency_reset_store_zeroed [OF assms(2,3,4)]]
  have "dm_attr_store reg kobj (dm_attr_io_latency_reset cfg) payload len
           = Some (len, (paired reg kobj)\<lparr>live := (live reg)(kobj \<mapsto> zeroed cfg md)\<rparr>)" .
  moreover have "unat len < 2 ^ 63 \<longrightarrow> sint len = int (unat len)"
    using sint_size_t [of len] by blast
  ultimately show ?thesis
    by (simp add: zeroed_def)
qed

theorem reset_store_zeroes_witness:
  "live reg_wrapped 0 = Some md_wrapped
   \<and> length (latency_stats_us md_wrapped) = DM_LATENCY_STATS_US_NR cfg_example
   \<and> length (latency_stats_ms md_wrapped) = DM_LATENCY_STATS_MS_NR cfg_example
   \<and> length (latency_stats_s md_wrapped) = DM_LATENCY_STATS_S_NR cfg_example
   \<and> unat (7 :: size_t) < 2 ^ 63
   \<and> dm_attr_store reg_wrapped 0 (dm_attr_io_latency_reset cfg_example) ''garbage'' 7
       = Some (7, (paired reg_wrapped 0)\<lparr>live := (live reg_wrapped)(0 \<mapsto> zeroed cfg_example md_wrapped)\<rparr>)
   \<and> sint (7 :: size_t) = int (unat (7 :: size_t))
   \<and> latency_stats_us (zeroed cfg_example md_wrapped) = replicate (DM_LATENCY_STATS_US_NR cfg_example) 0"
proof -
  have h1: "live reg_wrapped 0 = Some md_wrapped"
    by (simp add: reg_wrapped_def)
  have h2: "length (latency_stats_us md_wrapped) = DM_LATENCY_STATS_US_NR cfg_example"
    by (simp add: md_wrapped_def md_example_def cfg_example_def)
  have h3: "length (latency_stats_ms md_wrapped) = DM_LATENCY_STATS_MS_NR cfg_example"
    by (simp add: md_wrapped_def md_example_def cfg_example_def)
  have h4: "length (latency_stats_s md_wrapped) = DM_LATENCY_STATS_S_NR cfg_example"
    by (simp add: md_wrapped_def md_example_def cfg_example_def)
  have h5: "unat (7 :: size_t) < 2 ^ 63"
    by simp
  show ?thesis
    using reset_store_zeroes [OF h1 h2 h3 h4, where payload = "''garbage''" and len = 7] h1 h2 h3 h4 h5
    by (intro conjI) simp_all
qed

text \<open>
  C6. The reset is idempotent: a second write of \<open>io_latency_reset\<close> right after the
  first leaves the devices of the registry as the first left them, with every counter at
  zero. Whatever the histograms held before, a read of a latency attribute right after a
  reset shows the count 0 in the line of every bucket of that scale.
\<close>

theorem reset_idempotent:
  assumes "live reg kobj = Some md"
    and "length (latency_stats_us md) = DM_LATENCY_STATS_US_NR cfg"
    and "length (latency_stats_ms md) = DM_LATENCY_STATS_MS_NR cfg"
    and "length (latency_stats_s md) = DM_LATENCY_STATS_S_NR cfg"
    and "0 < scale_nr cfg sc" and "0 < sint (scale_grainsize cfg sc)"
    and "int (scale_nr cfg sc) * sint (scale_grainsize cfg sc) \<le> 2 ^ 31"
    and "length (histogram_text (scale_unit sc) (sint (scale_grainsize cfg sc))
           (replicate (scale_nr cfg sc) 0)) < length page"
  shows "(let reg1 = (paired reg kobj)\<lparr>live := (live reg)(kobj \<mapsto> zeroed cfg md)\<rparr>;
              out = histogram_text (scale_unit sc) (sint (scale_grainsize cfg sc))
                      (replicate (scale_nr cfg sc) 0)
          in dm_attr_store reg kobj (dm_attr_io_latency_reset cfg) payload len = Some (len, reg1)
             \<and> dm_attr_store reg1 kobj (dm_attr_io_latency_reset cfg) payload' len'
                 = Some (len', paired reg1 kobj)
             \<and> live (paired reg1 kobj) = live reg1
             \<and> live reg1 kobj = Some (zeroed cfg md)
             \<and> scale_stats (zeroed cfg md) sc = replicate (scale_nr cfg sc) 0
             \<and> dm_attr_show reg1 kobj (io_latency_attr cfg sc) page
                 = Some (of_nat (length out), written page 0 out, paired reg1 kobj)
             \<and> out = concat (map (\<lambda>i. bucket_line (scale_unit sc) (sint (scale_grainsize cfg sc)) i 0)
                              [0..<scale_nr cfg sc]))"
proof -
  let ?reg1 = "(paired reg kobj)\<lparr>live := (live reg)(kobj \<mapsto> zeroed cfg md)\<rparr>"
  let ?g = "sint (scale_grainsize cfg sc)"
  let ?out = "histogram_text (scale_unit sc) ?g (replicate (scale_nr cfg sc) 0)"
  have cb: "dm_store (dm_attr_io_latency_reset cfg) = Some (dm_attr_io_latency_reset_store cfg)"
    by (simp add: dm_attr_io_latency_reset_def DM_ATTR_RW_def)
  have live1: "live ?reg1 kobj = Some (zeroed cfg md)"
    by simp
  have 1: "dm_attr_store reg kobj (dm_attr_io_latency_reset cfg) payload len = Some (len, ?reg1)"
    by (rule dm_attr_store_resolved [OF cb assms(1)
          dm_attr_io_latency_reset_store_zeroed [OF assms(2,3,4)]])
  have again: "dm_attr_io_latency_reset_store cfg (zeroed cfg md) payload' len'
      = Some (len', zeroed cfg md)"
    using dm_attr_io_latency_reset_store_zeroed [of "zeroed cfg md" cfg payload' len']
    by (simp add: zeroed_zeroed) (simp add: zeroed_def)
  have "dm_attr_store ?reg1 kobj (dm_attr_io_latency_reset cfg) payload' len'
      = Some (len', (paired ?reg1 kobj)\<lparr>live := (live ?reg1)(kobj \<mapsto> zeroed cfg md)\<rparr>)"
    by (rule dm_attr_store_resolved [OF cb live1 again])
  then have 2: "dm_attr_store ?reg1 kobj (dm_attr_io_latency_reset cfg) payload' len'
      = Some (len', paired ?reg1 kobj)"
    by (simp only: paired_live_same [OF live1])
  have 3: "live (paired ?reg1 kobj) = live ?reg1"
    by (simp add: paired_def)
  have stats: "scale_stats (zeroed cfg md) sc = replicate (scale_nr cfg sc) 0"
    by (rule scale_stats_zeroed)
  have counts: "map sint (scale_stats (zeroed cfg md) sc) = replicate (scale_nr cfg sc) 0"
    by (simp add: stats)
  have "dm_attr_show ?reg1 kobj (io_latency_attr cfg sc) page
      = Some (of_nat (length (histogram_text (scale_unit sc) ?g
                (map sint (scale_stats (zeroed cfg md) sc)))),
              written page 0 (histogram_text (scale_unit sc) ?g
                (map sint (scale_stats (zeroed cfg md) sc))),
              paired ?reg1 kobj)"
    using live1
  proof (rule io_latency_read)
    show "length (scale_stats (zeroed cfg md) sc) = scale_nr cfg sc"
      by (simp add: stats)
    show "length (histogram_text (scale_unit sc) ?g (map sint (scale_stats (zeroed cfg md) sc)))
        < length page"
      using assms(8) by (simp only: counts)
  qed (rule assms(5) assms(6) assms(7))+
  then have 4: "dm_attr_show ?reg1 kobj (io_latency_attr cfg sc) page
      = Some (of_nat (length ?out), written page 0 ?out, paired ?reg1 kobj)"
    by (simp only: counts)
  have "map (\<lambda>i. bucket_line (scale_unit sc) ?g i (replicate (scale_nr cfg sc) 0 ! i))
          [0..<scale_nr cfg sc]
      = map (\<lambda>i. bucket_line (scale_unit sc) ?g i 0) [0..<scale_nr cfg sc]"
    by (rule map_cong) simp_all
  then have 5: "?out = concat (map (\<lambda>i. bucket_line (scale_unit sc) ?g i 0) [0..<scale_nr cfg sc])"
    unfolding histogram_text_def by (simp only: length_replicate)
  show ?thesis
    unfolding Let_def using 1 2 3 live1 stats 4 5 by (intro conjI)
qed

theorem reset_idempotent_witness:
  "live reg_wrapped 0 = Some md_wrapped
   \<and> length (latency_stats_us md_wrapped) = DM_LATENCY_STATS_US_NR cfg_example
   \<and> length (latency_stats_ms md_wrapped) = DM_LATENCY_STATS_MS_NR cfg_example
   \<and> length (latency_stats_s md_wrapped) = DM_LATENCY_STATS_S_NR cfg_example
   \<and> 0 < scale_nr cfg_example Micro \<and> 0 < sint (scale_grainsize cfg_example Micro)
   \<and> int (scale_nr cfg_example Micro) * sint (scale_grainsize cfg_example Micro) \<le> 2 ^ 31
   \<and> length (histogram_text (scale_unit Micro) (sint (scale_grainsize cfg_example Micro))
         (replicate (scale_nr cfg_example Micro) 0)) < length page_example
   \<and> (let reg1 = (paired reg_wrapped 0)\<lparr>live := (live reg_wrapped)(0 \<mapsto> zeroed cfg_example md_wrapped)\<rparr>;
            out = histogram_text (scale_unit Micro) (sint (scale_grainsize cfg_example Micro))
                    (replicate (scale_nr cfg_example Micro) 0)
        in dm_attr_store reg_wrapped 0 (dm_attr_io_latency_reset cfg_example) ''1'' 1 = Some (1, reg1)
           \<and> dm_attr_store reg1 0 (dm_attr_io_latency_reset cfg_example) ''1'' 1
               = Some (1, paired reg1 0)
           \<and> live (paired reg1 0) = live reg1
           \<and> dm_attr_show reg1 0 (io_latency_attr cfg_example Micro) page_example
               = Some (of_nat (length out), written page_example 0 out, paired reg1 0))"
proof -
  have h1: "live reg_wrapped 0 = Some md_wrapped"
    by (simp add: reg_wrapped_def)
  have h2: "length (latency_stats_us md_wrapped) = DM_LATENCY_STATS_US_NR cfg_example"
    by (simp add: md_wrapped_def md_example_def cfg_example_def)
  have h3: "length (latency_stats_ms md_wrapped) = DM_LATENCY_STATS_MS_NR cfg_example"
    by (simp add: md_wrapped_def md_example_def cfg_example_def)
  have h4: "length (latency_stats_s md_wrapped) = DM_LATENCY_STATS_S_NR cfg_example"
    by (simp add: md_wrapped_def md_example_def cfg_example_def)
  have h5: "0 < scale_nr cfg_example Micro"
    by (simp add: cfg_example_def)
  have h6: "0 < sint (scale_grainsize cfg_example Micro)"
    by (simp add: cfg_example_def)
  have h7: "int (scale_nr cfg_example Micro) * sint (scale_grainsize cfg_example Micro) \<le> 2 ^ 31"
    by (simp add: cfg_example_def)
  have h8: "length (histogram_text (scale_unit Micro) (sint (scale_grainsize cfg_example Micro))
         (replicate (scale_nr cfg_example Micro) 0)) < length page_example"
    by code_simp
  show ?thesis
    using reset_idempotent [OF h1 h2 h3 h4 h5 h6 h7 h8, of "''1''" 1 "''1''" 1]
      h1 h2 h3 h4 h5 h6 h7 h8
    unfolding Let_def by (intro conjI) simp_all
qed

subsection \<open>The suspended flag\<close>

text \<open>
  C9. Reading \<open>suspended\<close> on a device that resolves succeeds: the result is 2 and the
  page holds \<open>1\<close> and a newline when the device is suspended, \<open>0\<close> and a newline when
  it is not. The page must have room for these two characters and the terminator.
\<close>

theorem suspended_read:
  assumes "live reg kobj = Some md" and "2 < length page"
  shows "dm_attr_show reg kobj dm_attr_suspended page
           = Some (2, written page 0 (if suspended md then ''1\<newline>'' else ''0\<newline>''),
                   paired reg kobj)
         \<and> take 2 (written page 0 (if suspended md then ''1\<newline>'' else ''0\<newline>''))
           = (if suspended md then ''1\<newline>'' else ''0\<newline>'')"
proof -
  have "dm_show dm_attr_suspended = Some dm_attr_suspended_show"
    by (simp add: dm_attr_suspended_def DM_ATTR_RO_def)
  from dm_attr_show_resolved [OF this assms(1) dm_attr_suspended_show_text [OF assms(2)]]
  have "dm_attr_show reg kobj dm_attr_suspended page
           = Some (2, written page 0 (if suspended md then ''1\<newline>'' else ''0\<newline>''),
                   paired reg kobj)"
    by (simp only: paired_live_same [OF assms(1)])
  moreover have "take 2 (written page 0 (if suspended md then ''1\<newline>'' else ''0\<newline>''))
           = (if suspended md then ''1\<newline>'' else ''0\<newline>'')"
    by (simp add: written_def)
  ultimately show ?thesis ..
qed

theorem suspended_read_witness:
  "live reg_example 0 = Some md_example \<and> 2 < length page_example
   \<and> dm_attr_show reg_example 0 dm_attr_suspended page_example
        = Some (2, written page_example 0 (if suspended md_example then ''1\<newline>'' else ''0\<newline>''),
                paired reg_example 0)
   \<and> take 2 (written page_example 0 (if suspended md_example then ''1\<newline>'' else ''0\<newline>''))
        = (if suspended md_example then ''1\<newline>'' else ''0\<newline>'')"
proof -
  have h1: "live reg_example 0 = Some md_example"
    by (simp add: reg_example_def)
  have h2: "2 < length page_example"
    by (simp add: page_example_def)
  show ?thesis
    using suspended_read [OF h1 h2] h1 h2 by (intro conjI) simp_all
qed

subsection \<open>The dispatchers\<close>

text \<open>
  C3. A read of an attribute without \<open>show\<close> callback fails with \<open>-EIO\<close>, the
  dispatchers' error for an operation the attribute does not support, and a write of an
  attribute without \<open>store\<close> callback does the same, whatever the kobject, the page and
  the payload are; nothing is resolved and nothing changes. \<open>io_latency_reset\<close> is such
  an attribute for reads and \<open>name\<close> for writes. The error is not \<open>-ENOENT\<close>.
\<close>

theorem missing_callback_is_EIO:
  "(dm_show a = None \<longrightarrow> dm_attr_show reg kobj a page = Some (- EIO, page, reg))
   \<and> (dm_store a = None \<longrightarrow> dm_attr_store reg kobj a payload len = Some (- EIO, reg))
   \<and> dm_attr_show reg kobj (dm_attr_io_latency_reset cfg) page = Some (- EIO, page, reg)
   \<and> dm_attr_store reg kobj dm_attr_name payload len = Some (- EIO, reg)
   \<and> sint (- EIO) = - 5 \<and> - EIO \<noteq> - ENOENT"
  by (simp add: dm_attr_show_def dm_attr_store_def dm_attr_io_latency_reset_def
      dm_attr_name_def DM_ATTR_RO_def DM_ATTR_RW_def EIO_def ENOENT_def)

theorem missing_callback_is_EIO_witness:
  "dm_show (dm_attr_io_latency_reset cfg_example) = None
   \<and> dm_attr_show reg_example 0 (dm_attr_io_latency_reset cfg_example) page_example
       = Some (- EIO, page_example, reg_example)
   \<and> dm_store dm_attr_name = None
   \<and> dm_attr_store reg_example 0 dm_attr_name ''1'' 1 = Some (- EIO, reg_example)"
proof -
  have h1: "dm_show (dm_attr_io_latency_reset cfg_example) = None"
    by (simp add: dm_attr_io_latency_reset_def DM_ATTR_RW_def)
  have h2: "dm_store dm_attr_name = None"
    by (simp add: dm_attr_name_def DM_ATTR_RO_def)
  note inst = missing_callback_is_EIO [of _ reg_example 0 page_example "''1''" 1 cfg_example]
  from h1 inst [of "dm_attr_io_latency_reset cfg_example"]
  have "dm_attr_show reg_example 0 (dm_attr_io_latency_reset cfg_example) page_example
       = Some (- EIO, page_example, reg_example)"
    by blast
  moreover from h2 inst [of dm_attr_name]
  have "dm_attr_store reg_example 0 dm_attr_name ''1'' 1 = Some (- EIO, reg_example)"
    by blast
  ultimately show ?thesis
    using h1 h2 by (intro conjI)
qed

text \<open>
  C4. When the kobject does not resolve to a device, a read of an attribute with \<open>show\<close>
  callback and a write of an attribute with \<open>store\<close> callback fail with \<open>-EINVAL\<close>.
  The result does not depend on the callback, the page is the one that was passed, and
  the registry is the one that was passed: no object has changed, and the log of
  acquisitions and releases has not grown.
\<close>

theorem unresolved_is_EINVAL:
  assumes "fst (dm_get_from_kobject reg kobj) = None"
  shows "(dm_show a \<noteq> None \<longrightarrow>
            dm_attr_show reg kobj a page = Some (- EINVAL, page, reg))
         \<and> (dm_store a \<noteq> None \<longrightarrow>
            dm_attr_store reg kobj a payload len = Some (- EINVAL, reg))
         \<and> snd (dm_get_from_kobject reg kobj) = reg
         \<and> sint (- EINVAL) = - 22"
proof -
  from assms have "live reg kobj = None"
    by (simp add: dm_get_from_kobject_fails)
  then show ?thesis
    by (auto simp: dm_attr_show_def dm_attr_store_def dm_get_from_kobject_def EINVAL_def)
qed

theorem unresolved_is_EINVAL_witness:
  "fst (dm_get_from_kobject reg_example 1) = None
   \<and> dm_show dm_attr_suspended \<noteq> None
   \<and> dm_attr_show reg_example 1 dm_attr_suspended page_example
        = Some (- EINVAL, page_example, reg_example)
   \<and> dm_store (dm_attr_io_latency_reset cfg_example) \<noteq> None
   \<and> dm_attr_store reg_example 1 (dm_attr_io_latency_reset cfg_example) ''1'' 1
        = Some (- EINVAL, reg_example)"
proof -
  have h: "fst (dm_get_from_kobject reg_example 1) = None"
    by (simp add: dm_get_from_kobject_def reg_example_def)
  have h1: "dm_show dm_attr_suspended \<noteq> None"
    by (simp add: dm_attr_suspended_def DM_ATTR_RO_def)
  have h2: "dm_store (dm_attr_io_latency_reset cfg_example) \<noteq> None"
    by (simp add: dm_attr_io_latency_reset_def DM_ATTR_RW_def)
  from h1 unresolved_is_EINVAL [OF h, of dm_attr_suspended page_example]
  have "dm_attr_show reg_example 1 dm_attr_suspended page_example
        = Some (- EINVAL, page_example, reg_example)"
    by blast
  moreover from h2 unresolved_is_EINVAL [OF h, of "dm_attr_io_latency_reset cfg_example" _ "''1''" 1]
  have "dm_attr_store reg_example 1 (dm_attr_io_latency_reset cfg_example) ''1'' 1
        = Some (- EINVAL, reg_example)"
    by blast
  ultimately show ?thesis
    using h h1 h2 by (intro conjI)
qed

text \<open>
  C5. Whenever a dispatcher returns, the registry holds as many references to each
  object as before, and the log has grown by one acquisition followed by one release of
  the kobject when the attribute has the callback and the kobject resolved, and has not
  grown otherwise. That is so whatever the callback returns, an error included. A
  dispatcher has no result only when the callback it called has none.
\<close>

theorem reference_paired:
  "(case dm_attr_show reg kobj a page of
      None \<Rightarrow> (\<exists>f md. dm_show a = Some f \<and> live reg kobj = Some md \<and> f md page = None)
    | Some (ret, page', reg') \<Rightarrow>
        holders reg' = holders reg
        \<and> ref_log reg' = ref_log reg @
             (if dm_show a \<noteq> None \<and> fst (dm_get_from_kobject reg kobj) \<noteq> None
              then [Acquire kobj, Release kobj] else []))
   \<and> (case dm_attr_store reg kobj a payload len of
      None \<Rightarrow> (\<exists>g md. dm_store a = Some g \<and> live reg kobj = Some md \<and> g md payload len = None)
    | Some (ret, reg') \<Rightarrow>
        holders reg' = holders reg
        \<and> ref_log reg' = ref_log reg @
             (if dm_store a \<noteq> None \<and> fst (dm_get_from_kobject reg kobj) \<noteq> None
              then [Acquire kobj, Release kobj] else []))"
proof
  show "case dm_attr_show reg kobj a page of
      None \<Rightarrow> (\<exists>f md. dm_show a = Some f \<and> live reg kobj = Some md \<and> f md page = None)
    | Some (ret, page', reg') \<Rightarrow>
        holders reg' = holders reg
        \<and> ref_log reg' = ref_log reg @
             (if dm_show a \<noteq> None \<and> fst (dm_get_from_kobject reg kobj) \<noteq> None
              then [Acquire kobj, Release kobj] else [])"
    by (simp add: dm_attr_show_def dm_get_from_kobject_def dm_put_def split: option.splits)
  show "case dm_attr_store reg kobj a payload len of
      None \<Rightarrow> (\<exists>g md. dm_store a = Some g \<and> live reg kobj = Some md \<and> g md payload len = None)
    | Some (ret, reg') \<Rightarrow>
        holders reg' = holders reg
        \<and> ref_log reg' = ref_log reg @
             (if dm_store a \<noteq> None \<and> fst (dm_get_from_kobject reg kobj) \<noteq> None
              then [Acquire kobj, Release kobj] else [])"
    by (simp add: dm_attr_store_def dm_get_from_kobject_def dm_put_def split: option.splits)
qed

theorem reference_paired_witness:
  "dm_attr_show (reg_example\<lparr>live := [0 \<mapsto> md_example\<lparr>hash_cell := None\<rparr>]\<rparr>) 0 dm_attr_name
       page_example
     = Some (- EIO, page_example,
             paired (reg_example\<lparr>live := [0 \<mapsto> md_example\<lparr>hash_cell := None\<rparr>]\<rparr>) 0)
   \<and> holders (paired (reg_example\<lparr>live := [0 \<mapsto> md_example\<lparr>hash_cell := None\<rparr>]\<rparr>) 0)
     = holders (reg_example\<lparr>live := [0 \<mapsto> md_example\<lparr>hash_cell := None\<rparr>]\<rparr>)
   \<and> ref_log (paired (reg_example\<lparr>live := [0 \<mapsto> md_example\<lparr>hash_cell := None\<rparr>]\<rparr>) 0)
     = ref_log (reg_example\<lparr>live := [0 \<mapsto> md_example\<lparr>hash_cell := None\<rparr>]\<rparr>)
         @ [Acquire 0, Release 0]"
proof -
  let ?reg = "reg_example\<lparr>live := [0 \<mapsto> md_example\<lparr>hash_cell := None\<rparr>]\<rparr>"
  have cb: "dm_attr_name_show (md_example\<lparr>hash_cell := None\<rparr>) page_example
      = Some (- EIO, page_example, md_example\<lparr>hash_cell := None\<rparr>)"
    by (simp add: dm_attr_name_show_def dm_copy_name_and_uuid_def ENXIO_def)
  have sh: "dm_show dm_attr_name = Some dm_attr_name_show"
    by (simp add: dm_attr_name_def DM_ATTR_RO_def)
  have lv: "live ?reg 0 = Some (md_example\<lparr>hash_cell := None\<rparr>)"
    by simp
  have run: "dm_attr_show ?reg 0 dm_attr_name page_example
      = Some (- EIO, page_example, paired ?reg 0)"
    using dm_attr_show_resolved [OF sh lv cb] by (simp only: paired_live_same [OF lv])
  have res: "fst (dm_get_from_kobject ?reg 0) \<noteq> None"
    by (simp add: dm_get_from_kobject_def)
  from reference_paired [where reg = ?reg and kobj = 0 and a = dm_attr_name
      and page = page_example]
  have "holders (paired ?reg 0) = holders ?reg
      \<and> ref_log (paired ?reg 0) = ref_log ?reg @ [Acquire 0, Release 0]"
    using sh res by (simp add: run)
  with run show ?thesis
    by (intro conjI) simp_all
qed

end
